theory Spec2Isabelle
  imports Main "HOL-Library.AList"
begin

section \<open>The channel collection of the container runtime\<close>

text \<open>
  A shallow embedding of the class \<open>ChannelCollection\<close> and of the function
  \<open>detectOutboundReferences\<close> of the container runtime (channelCollection.ts). Strings
  are \<open>string\<close>, a JavaScript \<open>Map\<close> is a partial function, or a list in insertion order
  where the code iterates over it, exceptions are values of the type \<open>error\<close>, and every
  call into a collaborator (the parent runtime, the logger, the garbage collector) is an
  entry appended to a log in the state.
\<close>

subsection \<open>Attach states and identifiers\<close>

datatype AttachState = Detached | Attaching | Attached

text \<open>
  The result of \<open>containerRuntime.generateDocumentUniqueId()\<close>: \<open>number | string\<close>.
\<close>

datatype DocumentUniqueId = NumberId int | StringId string

text \<open>
  A JavaScript number is an IEEE double. An integer of magnitude up to \<open>2^53\<close> is a
  double; a larger one is rounded to 53 significant bits, to the nearest double and, at
  a tie, to the one whose last bit is zero. \<open>round_double x\<close> is the double that an
  arithmetic operation returns when its exact result is the integer \<open>x\<close> (overflow to
  \<open>Infinity\<close>, beyond \<open>2^1024\<close>, is left out).
\<close>

fun bit_length :: "nat \<Rightarrow> nat" where
  "bit_length n = (if n = 0 then 0 else Suc (bit_length (n div 2)))"

declare bit_length.simps [simp del]

definition round_double :: "int \<Rightarrow> int" where
  "round_double x =
     (let a = nat \<bar>x\<bar>
      in if a \<le> 2 ^ 53 then x
         else
           (let m = 2 ^ (bit_length a - 53);
                q = a div m;
                r = a mod m;
                q' = (if 2 * r < m then q
                      else if m < 2 * r then q + 1
                      else if even q then q else q + 1)
            in sgn x * int (q' * m)))"

text \<open>
  \<open>createDataStoreId\<close>. The function \<open>encodeCompactIdToString\<close> belongs to the
  runtime-utils package, which is not part of these sources: it is the parameter \<open>enc\<close>.
  \<open>contextsSize\<close> is \<open>this.contexts.size\<close> and \<open>gen\<close> is what the parent's generator returns
  (it is only consulted when the container is not detached). Both are integers that are
  doubles. Doubling a double is exact; adding 1 rounds.
\<close>

definition createDataStoreId ::
  "(int \<Rightarrow> string) \<Rightarrow> AttachState \<Rightarrow> nat \<Rightarrow> DocumentUniqueId \<Rightarrow> string" where
  "createDataStoreId enc parentAttachState contextsSize gen =
     (if parentAttachState = Detached then enc (2 * int contextsSize)
      else (case gen of
              NumberId n \<Rightarrow> enc (round_double (2 * n + 1))
            | StringId s \<Rightarrow> s))"

subsection \<open>Pending aliases\<close>

datatype AliasResult = Success | Conflict | AlreadyAliased

text \<open>
  A promise is known by its handle. An \<open>async\<close> function that returns a value resolves
  to it at once; one that returns a promise adopts that promise, so it settles as that
  promise does.
\<close>

type_synonym promise = nat

datatype 'a async_result = ResolvesTo 'a | Adopts promise

definition waitIfPendingAlias ::
  "(string \<rightharpoonup> promise) \<Rightarrow> string \<Rightarrow> AliasResult async_result" where
  "waitIfPendingAlias pendingAliases maybeAlias =
     (case pendingAliases maybeAlias of
        Some pendingAliasPromise \<Rightarrow> Adopts pendingAliasPromise
      | None \<Rightarrow> ResolvesTo Success)"

subsection \<open>Op contents and outbound-reference detection\<close>

text \<open>
  The contents of an op are JSON. An object is the list that \<open>Object.entries\<close> yields
  for it, in that order. Numbers are integers here (a fractional number has no part in
  any path this development looks at).
\<close>

datatype json =
    JNull
  | JBool bool
  | JNum int
  | JStr string
  | JArr "json list"
  | JObj "(string \<times> json) list"

definition digit_char :: "nat \<Rightarrow> char" where
  "digit_char d =
     (if d = 0 then CHR ''0'' else if d = 1 then CHR ''1'' else if d = 2 then CHR ''2''
      else if d = 3 then CHR ''3'' else if d = 4 then CHR ''4'' else if d = 5 then CHR ''5''
      else if d = 6 then CHR ''6'' else if d = 7 then CHR ''7'' else if d = 8 then CHR ''8''
      else CHR ''9'')"

text \<open>The key under which \<open>Object.entries\<close> lists the element \<open>n\<close> of an array.\<close>

fun decimal :: "nat \<Rightarrow> string" where
  "decimal n = (if n < 10 then [digit_char n] else decimal (n div 10) @ [digit_char (n mod 10)])"

declare decimal.simps [simp del]

text \<open>
  Modelled from the spec: \<open>isSerializedHandle\<close> (runtime-utils) is not part of these
  sources. The spec gives the serialized-handle shape as
  \<open>{type: "__fluid_handle__", url: string}\<close>.
\<close>

definition isSerializedHandle :: "json \<Rightarrow> bool" where
  "isSerializedHandle v =
     (case v of
        JObj es \<Rightarrow>
          map_of es ''type'' = Some (JStr ''__fluid_handle__'') \<and>
          (case map_of es ''url'' of Some (JStr u) \<Rightarrow> True | _ \<Rightarrow> False)
      | _ \<Rightarrow> False)"

text \<open>\<open>value.url\<close> of a value of that shape.\<close>

definition handle_url :: "json \<Rightarrow> string" where
  "handle_url v =
     (case v of
        JObj es \<Rightarrow> (case map_of es ''url'' of Some (JStr u) \<Rightarrow> u | _ \<Rightarrow> [])
      | _ \<Rightarrow> [])"

text \<open>
  The two variables that \<open>detectOutboundReferences\<close> builds up while it walks the
  contents; \<open>ddsAddress\<close> is \<open>None\<close> while it is \<open>undefined\<close>.
\<close>

record find_state =
  outboundPaths :: "string list"
  ddsAddress :: "json option"

text \<open>The body of the loop over the entries, before the recursive call.\<close>

definition visitEntry :: "string \<Rightarrow> json \<Rightarrow> find_state \<Rightarrow> find_state" where
  "visitEntry key v st =
     (let st1 = (if isSerializedHandle v
                 then st\<lparr>outboundPaths := outboundPaths st @ [handle_url v]\<rparr> else st)
      in if key = ''address'' \<and> ddsAddress st1 = None
         then st1\<lparr>ddsAddress := Some v\<rparr> else st1)"

text \<open>
  \<open>recursivelyFindHandles\<close>: only an object or an array has entries (\<open>typeof obj ===
  "object" && obj !== null\<close>); the entries of an array are its elements under the keys
  \<open>"0"\<close>, \<open>"1"\<close>, ...
\<close>

fun recursivelyFindHandles :: "json \<Rightarrow> find_state \<Rightarrow> find_state"
  and forEntries :: "(string \<times> json) list \<Rightarrow> find_state \<Rightarrow> find_state"
  and forElements :: "nat \<Rightarrow> json list \<Rightarrow> find_state \<Rightarrow> find_state" where
  "recursivelyFindHandles (JObj es) st = forEntries es st"
| "recursivelyFindHandles (JArr vs) st = forElements 0 vs st"
| "recursivelyFindHandles JNull st = st"
| "recursivelyFindHandles (JBool b) st = st"
| "recursivelyFindHandles (JNum n) st = st"
| "recursivelyFindHandles (JStr s) st = st"
| "forEntries [] st = st"
| "forEntries ((key, v) # es) st =
     forEntries es (recursivelyFindHandles v (visitEntry key v st))"
| "forElements i [] st = st"
| "forElements i (v # vs) st =
     forElements (Suc i) vs (recursivelyFindHandles v (visitEntry (decimal i) v st))"

text \<open>
  \<open>Array.prototype.join\<close> turns \<open>undefined\<close> and \<open>null\<close> into the empty string and
  every other element into its string.
\<close>

fun intercalate :: "string \<Rightarrow> string list \<Rightarrow> string" where
  "intercalate sep [] = []"
| "intercalate sep [x] = x"
| "intercalate sep (x # y # ys) = x @ sep @ intercalate sep (y # ys)"

fun js_toString :: "json \<Rightarrow> string" where
  "js_toString JNull = ''null''"
| "js_toString (JBool b) = (if b then ''true'' else ''false'')"
| "js_toString (JNum n) = (if n < 0 then ''-'' @ decimal (nat (- n)) else decimal (nat n))"
| "js_toString (JStr s) = s"
| "js_toString (JArr vs) =
     intercalate '','' (map (\<lambda>v. if v = JNull then [] else js_toString v) vs)"
| "js_toString (JObj es) = ''[object Object]''"

definition join_element :: "json option \<Rightarrow> string" where
  "join_element e = (case e of None \<Rightarrow> [] | Some JNull \<Rightarrow> [] | Some v \<Rightarrow> js_toString v)"

definition js_join :: "string \<Rightarrow> json option list \<Rightarrow> string" where
  "js_join sep es = intercalate sep (map join_element es)"

text \<open>
  \<open>detectOutboundReferences\<close>: the result is the list of the calls
  \<open>addedOutboundReference(fromPath, toPath)\<close>, in the order they are made.
\<close>

definition detectOutboundReferences :: "string \<Rightarrow> json \<Rightarrow> (string \<times> string) list" where
  "detectOutboundReferences address contents =
     (let st = recursivelyFindHandles contents \<lparr>outboundPaths = [], ddsAddress = None\<rparr>;
          fromPath = js_join ''/'' [Some (JStr []), Some (JStr address), ddsAddress st]
      in map (\<lambda>toPath. (fromPath, toPath)) (outboundPaths st))"

text \<open>
  What the specification says of the detection, independently of the traversal's
  variables: \<open>properties\<close> lists every property (key and value) that occurs anywhere in
  the contents, at any depth, a property before the properties inside its value and
  before its later siblings.
\<close>

fun properties :: "json \<Rightarrow> (string \<times> json) list"
  and propertiesOfEntries :: "(string \<times> json) list \<Rightarrow> (string \<times> json) list"
  and propertiesOfElements :: "nat \<Rightarrow> json list \<Rightarrow> (string \<times> json) list" where
  "properties (JObj es) = propertiesOfEntries es"
| "properties (JArr vs) = propertiesOfElements 0 vs"
| "properties JNull = []"
| "properties (JBool b) = []"
| "properties (JNum n) = []"
| "properties (JStr s) = []"
| "propertiesOfEntries [] = []"
| "propertiesOfEntries ((key, v) # es) = (key, v) # properties v @ propertiesOfEntries es"
| "propertiesOfElements i [] = []"
| "propertiesOfElements i (v # vs) =
     (decimal i, v) # properties v @ propertiesOfElements (Suc i) vs"

text \<open>The \<open>url\<close> of every value of the serialized-handle shape, in traversal order.\<close>

definition handle_urls :: "json \<Rightarrow> string list" where
  "handle_urls contents = map handle_url (filter isSerializedHandle (map snd (properties contents)))"

text \<open>The values of the properties named \<open>address\<close>, in traversal order.\<close>

definition address_values :: "json \<Rightarrow> json list" where
  "address_values contents = map snd (filter (\<lambda>p. fst p = ''address'') (properties contents))"

subsection \<open>Messages, contexts and the state of the collection\<close>

text \<open>
  An exception is a value. \<open>InternalConsistency\<close> is a failed \<open>assert\<close>, with the tag
  the source gives it; the other three are the classes the source throws.
\<close>

datatype error =
    InternalConsistency string
  | DataCorruptionError string
  | DataProcessingError string
  | TypeError string

type_synonym gc_nodes = "(string \<times> string list) list"

text \<open>
  Modelled from the spec: the snapshot of an attach message (an \<open>ITree\<close>). The functions
  that read it, \<open>processAttachMessageGCData\<close> (runtime-utils) and \<open>buildSnapshotTree\<close>
  (driver-utils), are not part of these sources. The spec says that the snapshot carries
  the store's initial tree with inline blobs and a GC payload of node entries with
  outbound routes; the record keeps that payload (\<open>None\<close> when the snapshot has none),
  the inline blobs, and the group id of the wire format.
\<close>

record snapshot =
  snap_gcNodes :: "gc_nodes option"
  snap_blobs :: "(string \<times> string) list"
  snap_groupId :: "string option"

text \<open>
  \<open>IAttachMessage\<close> and \<open>InboundAttachMessage\<close>: \<open>{id, type, snapshot}\<close>. The type is
  \<open>None\<close> when the package path it is taken from is empty, the snapshot when an old
  message has none.
\<close>

record AttachMessage =
  msg_id :: string
  msg_type :: "string option"
  msg_snapshot :: "snapshot option"

text \<open>
  \<open>IDataStoreAliasMessage\<close>; a payload that \<open>isDataStoreAliasMessage\<close> rejects is
  \<open>MalformedAliasMessage\<close>.
\<close>

datatype alias_contents = AliasMessage string string | MalformedAliasMessage

text \<open>\<open>IEnvelope\<close> with its \<open>FluidDataStoreMessage\<close>: \<open>{address, contents: {type, content}}\<close>.\<close>

record envelope =
  address :: string
  inner_type :: string
  inner_content :: json

text \<open>A container message by its \<open>ContainerMessageType\<close>; \<open>OtherOp\<close> is any other type.\<close>

datatype container_message =
    AttachOp AttachMessage
  | AliasOp alias_contents
  | FluidDataStoreOp envelope
  | OtherOp string

record sequenced_message =
  contents :: container_message
  timestamp :: nat

text \<open>
  A storage service as the source builds it: the parent's storage, or
  \<open>new StorageServiceWithAttachBlobs(service, blobs)\<close>.
\<close>

datatype storage_service =
    ParentStorage
  | StorageServiceWithAttachBlobs storage_service "(string \<times> string) list"

text \<open>
  Modelled from the spec: the class \<open>StorageServiceWithAttachBlobs\<close> is not part of these
  sources. The spec says that it wraps a storage and also serves the blobs inlined in the
  attach snapshot; \<open>parent\<close> is what the parent's storage holds.
\<close>

fun readBlob :: "(string \<rightharpoonup> string) \<Rightarrow> storage_service \<Rightarrow> string \<Rightarrow> string option" where
  "readBlob parent ParentStorage blobId = parent blobId"
| "readBlob parent (StorageServiceWithAttachBlobs inner attachBlobs) blobId =
     (case map_of attachBlobs blobId of
        Some blob \<Rightarrow> Some blob
      | None \<Rightarrow> readBlob parent inner blobId)"

datatype context_class =
    LocalFluidDataStoreContext
  | LocalDetachedFluidDataStoreContext
  | RemoteFluidDataStoreContext

text \<open>
  Modelled from the spec: a data store context (dataStoreContext.ts is not part of these
  sources). The fields are those of the spec's data model, and of the constructor calls
  in the source, that this development reads.
\<close>

record store_context =
  ctx_id :: string
  ctx_class :: context_class
  attachState :: AttachState
  packagePath :: "string list"
  inMemoryRoot :: bool
  ctx_deleted :: bool
  ctx_storage :: storage_service
  snapshotTree :: "snapshot option"
  loadingGroupId :: "string option"

text \<open>
  Modelled from the spec: the channel of a data store, which is outside the collection.
  The record holds what the channel answers when its context asks it: the attach summary
  (as the \<open>ITree\<close> of the attach message), the GC nodes for \<open>getGCData(fullGC)\<close>, and
  whether the store was created as a root.
\<close>

record channel =
  chan_attachSummary :: snapshot
  chan_gcNodes :: "bool \<Rightarrow> gc_nodes"
  chan_isRoot :: bool

text \<open>
  A handle, as the source builds it: \<open>new FluidObjectHandle(_, path, _)\<close> or an object
  \<open>{absolutePath}\<close>.
\<close>

datatype handle = FluidObjectHandle string | AbsolutePath string

datatype category = Generic | Error

text \<open>
  A telemetry event: its category, its name and the id it is tagged with (the other
  properties of an event are left out).
\<close>

datatype telemetry_event = TelemetryEvent category string "string option"

type_synonym resolver = nat

text \<open>
  The state of a \<open>ChannelCollection\<close>. \<open>contexts\<close> and \<open>notBoundContexts\<close> are the
  \<open>DataStoreContexts\<close> table: the contexts in insertion order, each stored under its own
  id, and the ids that are not bound yet. Then the members of the class, then what the
  collection reads from its collaborators (the parent's attach state, the
  \<open>isDataStoreDeleted\<close> callback, the configuration flag, the channels), then the log of
  each call it makes to them.
\<close>

record ChannelCollection =
  contexts :: "store_context list"
  notBoundContexts :: "string set"
  pendingAttach :: "string \<rightharpoonup> AttachMessage"
  attachOpFiredForDataStore :: "string set"
  dataStoresSinceLastGC :: "string list"
  aliasMap :: "string \<rightharpoonup> string"
  pendingAliasMap :: "string \<rightharpoonup> promise"
  shouldSendAttachLog :: bool
  parentAttachState :: AttachState
  isDataStoreDeleted :: "string \<Rightarrow> bool"
  detectOutboundRoutesViaDDSKey :: "bool option"
  channels :: "string \<Rightarrow> channel"
  submittedMessages :: "container_message list"
  gcOutboundReferences :: "(handle \<times> handle) list"
  addedOutboundReferences :: "(string \<times> string) list"
  telemetry :: "telemetry_event list"
  gcNodeUpdates :: "(string \<times> string \<times> nat) list"
  deliveredOps :: "(string \<times> string \<times> json \<times> bool) list"
  rolledBackOps :: "(string \<times> string \<times> json) list"
  resolverCalls :: "(resolver \<times> bool) list"
  deletedContexts :: "store_context list"
  deletedSummarizerNodes :: "string list"

subsection \<open>The table of contexts\<close>

text \<open>
  The class \<open>DataStoreContexts\<close> (dataStoreContexts.ts) is not part of these sources.
  The spec's ContextTable is an indexed collection of contexts, partitioned into unbound
  and addressable ones, with the operations \<open>get\<close>, \<open>get_unbound\<close>, \<open>add_unbound\<close>,
  \<open>add_bound_or_remoted\<close>, \<open>bind\<close>, \<open>delete\<close> and \<open>size\<close>.
\<close>

text \<open>Modelled from the spec: \<open>get(id)\<close>, the context stored under the id.\<close>

definition ctx_get :: "string \<Rightarrow> store_context list \<Rightarrow> store_context option" where
  "ctx_get i cs = find (\<lambda>c. ctx_id c = i) cs"

text \<open>
  A method that changes the context found under an id: the context is an object, so the
  table sees the change.
\<close>

fun ctx_modify :: "string \<Rightarrow> (store_context \<Rightarrow> store_context) \<Rightarrow> store_context list \<Rightarrow> store_context list" where
  "ctx_modify i f [] = []"
| "ctx_modify i f (c # cs) = (if ctx_id c = i then f c # cs else c # ctx_modify i f cs)"

text \<open>Modelled from the spec: \<open>get_unbound(id)\<close>, the context if it is not bound yet.\<close>

definition getUnbound :: "string \<Rightarrow> ChannelCollection \<Rightarrow> store_context option" where
  "getUnbound i s = (if i \<in> notBoundContexts s then ctx_get i (contexts s) else None)"

text \<open>
  Modelled from the spec: \<open>add_unbound\<close>. An id is in at most one partition, so adding
  an id that the table holds already is a failed assertion.
\<close>

definition addUnbound :: "store_context \<Rightarrow> ChannelCollection \<Rightarrow> error + ChannelCollection" where
  "addUnbound c s =
     (if ctx_get (ctx_id c) (contexts s) \<noteq> None
      then Inl (InternalConsistency ''Creating store with existing ID'')
      else Inr (s\<lparr>contexts := contexts s @ [c],
                   notBoundContexts := insert (ctx_id c) (notBoundContexts s)\<rparr>))"

text \<open>Modelled from the spec: \<open>add_bound_or_remoted\<close>, with the same assertion.\<close>

definition addBoundOrRemoted :: "store_context \<Rightarrow> ChannelCollection \<Rightarrow> error + ChannelCollection" where
  "addBoundOrRemoted c s =
     (if ctx_get (ctx_id c) (contexts s) \<noteq> None
      then Inl (InternalConsistency ''Creating store with existing ID'')
      else Inr (s\<lparr>contexts := contexts s @ [c]\<rparr>))"

text \<open>
  Modelled from the spec: \<open>bind(id)\<close> moves an unbound id to the bound partition;
  binding an id that is not unbound is a failed assertion.
\<close>

definition bind :: "string \<Rightarrow> ChannelCollection \<Rightarrow> error + ChannelCollection" where
  "bind i s =
     (if i \<in> notBoundContexts s
      then Inr (s\<lparr>notBoundContexts := notBoundContexts s - {i}\<rparr>)
      else Inl (InternalConsistency ''The given id was not found in notBoundContexts''))"

text \<open>Modelled from the spec: \<open>delete(id)\<close> removes the context from the table.\<close>

definition contexts_delete :: "string \<Rightarrow> ChannelCollection \<Rightarrow> ChannelCollection" where
  "contexts_delete i s =
     s\<lparr>contexts := filter (\<lambda>c. ctx_id c \<noteq> i) (contexts s),
       notBoundContexts := notBoundContexts s - {i}\<rparr>"

text \<open>
  Modelled from the spec: \<open>set_attach_state(new_state)\<close> of a context is monotone
  (Detached, Attaching, Attached; no reverse). A step backwards is a failed assertion.
\<close>

fun attach_rank :: "AttachState \<Rightarrow> nat" where
  "attach_rank Detached = 0"
| "attach_rank Attaching = 1"
| "attach_rank Attached = 2"

definition setAttachState :: "AttachState \<Rightarrow> store_context \<Rightarrow> error + store_context" where
  "setAttachState new c =
     (if attach_rank new < attach_rank (attachState c)
      then Inl (InternalConsistency ''attach state moved backwards'')
      else Inr (c\<lparr>attachState := new\<rparr>))"

text \<open>
  Modelled from the spec: \<open>set_in_memory_root()\<close>; the root flag of a store goes from
  false to true when the store is aliased.
\<close>

definition setInMemoryRoot :: "store_context \<Rightarrow> store_context" where
  "setInMemoryRoot c = c\<lparr>inMemoryRoot := True\<rparr>"

text \<open>Modelled from the spec: \<open>delete()\<close> marks the context deleted.\<close>

definition context_delete :: "store_context \<Rightarrow> store_context" where
  "context_delete c = c\<lparr>ctx_deleted := True\<rparr>"


text \<open>
  Modelled from the spec: the constructors of the three context classes. A local store is
  created Detached, a remote store is created Attached; a new context is neither a root
  in memory nor deleted.
\<close>

definition new_context ::
  "context_class \<Rightarrow> string \<Rightarrow> string list \<Rightarrow> storage_service \<Rightarrow> snapshot option \<Rightarrow>
   string option \<Rightarrow> store_context" where
  "new_context cls i pkg sto tree grp =
     \<lparr>ctx_id = i, ctx_class = cls,
      attachState = (if cls = RemoteFluidDataStoreContext then Attached else Detached),
      packagePath = pkg, inMemoryRoot = False, ctx_deleted = False, ctx_storage = sto,
      snapshotTree = tree, loadingGroupId = grp\<rparr>"

subsection \<open>Attach messages\<close>

definition alreadyProcessed :: "string \<Rightarrow> ChannelCollection \<Rightarrow> bool" where
  "alreadyProcessed i s = (aliasMap s i \<noteq> None \<or> ctx_get i (contexts s) \<noteq> None)"

text \<open>
  \<open>checkAndLogIfDeleted\<close>: whether the garbage collector reports the node \<open>/id\<close> as
  deleted; if so an error event is logged. The context and the call site that the source
  passes only go into properties of the event (\<open>exists\<close>, \<open>callSite\<close>).
\<close>

definition checkAndLogIfDeleted ::
  "string \<Rightarrow> string \<Rightarrow> ChannelCollection \<Rightarrow> bool \<times> ChannelCollection" where
  "checkAndLogIfDeleted i deletedLogSuffix s =
     (if \<not> isDataStoreDeleted s (''/'' @ i) then (False, s)
      else (True, s\<lparr>telemetry := telemetry s @
              [TelemetryEvent Error (''GC_Deleted_DataStore_'' @ deletedLogSuffix) (Some i)]\<rparr>))"

text \<open>
  Modelled from the spec: \<open>processAttachMessageGCData\<close> (runtime-utils) is not part of
  these sources; it walks the GC payload of the snapshot and calls back for every node
  and every outbound route of the node. The callback is the source's: it reports an edge
  from \<open>/id\<close> followed by the node's path (nothing for the node \<open>/\<close>) to the route.
\<close>

definition attachMessageGCEdges :: "AttachMessage \<Rightarrow> (handle \<times> handle) list" where
  "attachMessageGCEdges m =
     (case msg_snapshot m of
        None \<Rightarrow> []
      | Some sn \<Rightarrow>
          (case snap_gcNodes sn of
             None \<Rightarrow> []
           | Some nodes \<Rightarrow>
               concat (map (\<lambda>(nodeId, routes).
                 map (\<lambda>toPath.
                   (AbsolutePath (''/'' @ msg_id m @ (if nodeId = ''/'' then [] else nodeId)),
                    AbsolutePath toPath)) routes) nodes)))"

text \<open>
  The first part of \<open>processAttachMessage\<close>, the same for a local and a remote message:
  the id is recorded for the next GC run, the GC data of the snapshot is reported, and the
  first attach message of the container is logged.
\<close>

definition recordAttachMessage :: "AttachMessage \<Rightarrow> ChannelCollection \<Rightarrow> ChannelCollection" where
  "recordAttachMessage attachMessage s =
     (let s1 = s\<lparr>dataStoresSinceLastGC := dataStoresSinceLastGC s @ [msg_id attachMessage],
                  gcOutboundReferences :=
                    gcOutboundReferences s @ attachMessageGCEdges attachMessage\<rparr>
      in if shouldSendAttachLog s1
         then s1\<lparr>shouldSendAttachLog := False,
                 telemetry := telemetry s1 @
                   [TelemetryEvent Generic ''dataStoreAttachMessage_sampled''
                      (Some (msg_id attachMessage))]\<rparr>
         else s1)"

definition processAttachMessage ::
  "AttachMessage \<Rightarrow> bool \<Rightarrow> ChannelCollection \<Rightarrow> error + ChannelCollection" where
  "processAttachMessage attachMessage local s =
     (let s2 = recordAttachMessage attachMessage s
      in if local then
           (if pendingAttach s2 (msg_id attachMessage) = None
            then Inl (InternalConsistency ''0x15e'')
            else (case ctx_get (msg_id attachMessage) (contexts s2) of
                    None \<Rightarrow>
                      Inr (s2\<lparr>pendingAttach := (pendingAttach s2)(msg_id attachMessage := None)\<rparr>)
                  | Some c \<Rightarrow>
                      (case setAttachState Attached c of
                         Inl e \<Rightarrow> Inl e
                       | Inr c' \<Rightarrow>
                           Inr (s2\<lparr>contexts :=
                                     ctx_modify (msg_id attachMessage) (\<lambda>_. c') (contexts s2),
                                   pendingAttach :=
                                     (pendingAttach s2)(msg_id attachMessage := None)\<rparr>))))
         else if alreadyProcessed (msg_id attachMessage) s2
         then Inl (DataCorruptionError ''Duplicate DataStore created with existing id'')
         else
           (let flatAttachBlobs =
                  (case msg_snapshot attachMessage of None \<Rightarrow> [] | Some sn \<Rightarrow> snap_blobs sn);
                pkg = (case msg_type attachMessage of None \<Rightarrow> [] | Some ty \<Rightarrow> [ty]);
                remoteFluidDataStoreContext =
                  new_context RemoteFluidDataStoreContext (msg_id attachMessage) pkg
                    (StorageServiceWithAttachBlobs ParentStorage flatAttachBlobs)
                    (msg_snapshot attachMessage)
                    (case msg_snapshot attachMessage of
                       None \<Rightarrow> None | Some sn \<Rightarrow> snap_groupId sn)
            in addBoundOrRemoted remoteFluidDataStoreContext s2))"

text \<open>
  \<open>generateAttachMessage\<close>, \<open>submitAttachChannelOp\<close> and
  \<open>makeDataStoreLocallyVisible\<close>.
\<close>

definition generateAttachMessage :: "ChannelCollection \<Rightarrow> store_context \<Rightarrow> AttachMessage" where
  "generateAttachMessage s localContext =
     \<lparr>msg_id = ctx_id localContext,
      msg_type = (if packagePath localContext = [] then None
                  else Some (last (packagePath localContext))),
      msg_snapshot = Some (chan_attachSummary (channels s (ctx_id localContext)))\<rparr>"

definition submitAttachChannelOp :: "store_context \<Rightarrow> ChannelCollection \<Rightarrow> ChannelCollection" where
  "submitAttachChannelOp localContext s =
     (let message = generateAttachMessage s localContext
      in s\<lparr>pendingAttach := (pendingAttach s)(ctx_id localContext \<mapsto> message),
            submittedMessages := submittedMessages s @ [AttachOp message],
            attachOpFiredForDataStore :=
              insert (ctx_id localContext) (attachOpFiredForDataStore s)\<rparr>)"

definition makeDataStoreLocallyVisible ::
  "string \<Rightarrow> ChannelCollection \<Rightarrow> error + ChannelCollection" where
  "makeDataStoreLocallyVisible i s =
     (case getUnbound i s of
        None \<Rightarrow> Inl (InternalConsistency ''0x15f'')
      | Some localContext \<Rightarrow>
          (if parentAttachState s \<noteq> Detached then
             (case setAttachState Attaching localContext of
                Inl e \<Rightarrow> Inl e
              | Inr c' \<Rightarrow>
                  bind i (submitAttachChannelOp c'
                    (s\<lparr>contexts := ctx_modify i (\<lambda>_. c') (contexts s)\<rparr>)))
           else bind i s))"

text \<open>\<open>createContext\<close> and its two callers.\<close>

definition createContext ::
  "string \<Rightarrow> string list \<Rightarrow> context_class \<Rightarrow> string option \<Rightarrow> ChannelCollection \<Rightarrow>
   error + ChannelCollection" where
  "createContext i pkg contextCtor grp s =
     addUnbound (new_context contextCtor i pkg ParentStorage None grp) s"

definition createDataStoreContext ::
  "(int \<Rightarrow> string) \<Rightarrow> DocumentUniqueId \<Rightarrow> string list \<Rightarrow> string option \<Rightarrow>
   ChannelCollection \<Rightarrow> error + ChannelCollection" where
  "createDataStoreContext enc gen pkg grp s =
     createContext (createDataStoreId enc (parentAttachState s) (length (contexts s)) gen)
       pkg LocalFluidDataStoreContext grp s"

definition createDetachedDataStore ::
  "(int \<Rightarrow> string) \<Rightarrow> DocumentUniqueId \<Rightarrow> string list \<Rightarrow> string option \<Rightarrow>
   ChannelCollection \<Rightarrow> error + ChannelCollection" where
  "createDetachedDataStore enc gen pkg grp s =
     createContext (createDataStoreId enc (parentAttachState s) (length (contexts s)) gen)
       pkg LocalDetachedFluidDataStoreContext grp s"

text \<open>
  \<open>applyStashedAttachOp\<close>. Reading \<open>snapshot.entries\<close> of a message without a snapshot
  is a \<open>TypeError\<close>. Realizing the new context runs the channel's code and is left out.
\<close>

definition applyStashedAttachOp ::
  "AttachMessage \<Rightarrow> ChannelCollection \<Rightarrow> error + ChannelCollection" where
  "applyStashedAttachOp message s =
     (case msg_snapshot message of
        None \<Rightarrow> Inl (TypeError ''snapshot is undefined'')
      | Some sn \<Rightarrow>
          (let dataStoreContext =
                 new_context LocalFluidDataStoreContext (msg_id message) []
                   (StorageServiceWithAttachBlobs ParentStorage (snap_blobs sn)) (Some sn) None
           in case addBoundOrRemoted dataStoreContext s of
                Inl e \<Rightarrow> Inl e
              | Inr s1 \<Rightarrow>
                  Inr (if parentAttachState s1 \<noteq> Detached
                       then s1\<lparr>pendingAttach := (pendingAttach s1)(msg_id message \<mapsto> message)\<rparr>
                       else s1)))"

subsection \<open>Alias messages\<close>

definition processAliasMessageCore ::
  "string \<Rightarrow> string \<Rightarrow> ChannelCollection \<Rightarrow> bool \<times> ChannelCollection" where
  "processAliasMessageCore internalId alias s =
     (if alreadyProcessed alias s then (False, s)
      else
        (let ctx = ctx_get internalId (contexts s);
             (del, s1) = checkAndLogIfDeleted internalId ''Changed'' s
         in if del then (False, s1)
            else (case ctx of
                    None \<Rightarrow>
                      (False, s1\<lparr>telemetry := telemetry s1 @
                         [TelemetryEvent Error ''AliasFluidDataStoreNotFound'' (Some internalId)]\<rparr>)
                  | Some c \<Rightarrow>
                      (True, s1\<lparr>gcOutboundReferences := gcOutboundReferences s1 @
                                  [(FluidObjectHandle ''/'', FluidObjectHandle internalId)],
                                aliasMap := (aliasMap s1)(alias \<mapsto> ctx_id c),
                                contexts :=
                                  ctx_modify internalId setInMemoryRoot (contexts s1)\<rparr>))))"

definition processAliasMessage ::
  "alias_contents \<Rightarrow> resolver \<Rightarrow> bool \<Rightarrow> ChannelCollection \<Rightarrow> error + ChannelCollection" where
  "processAliasMessage aliasMessage resolve local s =
     (case aliasMessage of
        MalformedAliasMessage \<Rightarrow> Inl (DataCorruptionError ''malformedDataStoreAliasMessage'')
      | AliasMessage internalId alias \<Rightarrow>
          (let (aliasResult, s1) = processAliasMessageCore internalId alias s
           in Inr (if local
                   then s1\<lparr>resolverCalls := resolverCalls s1 @ [(resolve, aliasResult)]\<rparr>
                   else s1)))"

subsection \<open>Channel ops\<close>

text \<open>
  \<open>processChannelOp\<close>. Delivering the op to the context (\<open>context.process\<close>) and the
  notification of the garbage collector (\<open>gcNodeUpdated\<close>) are entries in the logs.
\<close>

definition processChannelOp ::
  "envelope \<Rightarrow> nat \<Rightarrow> bool \<Rightarrow> ChannelCollection \<Rightarrow> error + ChannelCollection" where
  "processChannelOp env ts local s =
     (let ctx = ctx_get (address env) (contexts s);
          (del, s1) = checkAndLogIfDeleted (address env) ''Changed'' s
      in if del then Inr s1
         else (case ctx of
                 None \<Rightarrow> Inl (DataProcessingError ''No context for op'')
               | Some c \<Rightarrow>
                   Inr (s1\<lparr>deliveredOps := deliveredOps s1 @
                               [(address env, inner_type env, inner_content env, local)],
                           gcNodeUpdates := gcNodeUpdates s1 @
                               [(''/'' @ address env, ''Changed'', ts)]\<rparr>)))"

text \<open>
  \<open>process\<close>. \<open>hasCallback\<close> says whether the optional argument
  \<open>addedOutboundReference\<close> was given; its calls are logged in
  \<open>addedOutboundReferences\<close>.
\<close>

definition process ::
  "sequenced_message \<Rightarrow> bool \<Rightarrow> resolver \<Rightarrow> bool \<Rightarrow> ChannelCollection \<Rightarrow>
   error + ChannelCollection" where
  "process message local localMessageMetadata hasCallback s =
     (case contents message of
        AttachOp attachMessage \<Rightarrow> processAttachMessage attachMessage local s
      | AliasOp aliasMessage \<Rightarrow> processAliasMessage aliasMessage localMessageMetadata local s
      | FluidDataStoreOp env \<Rightarrow>
          (case processChannelOp env (timestamp message) local s of
             Inl e \<Rightarrow> Inl e
           | Inr s1 \<Rightarrow>
               Inr (if detectOutboundRoutesViaDDSKey s1 \<noteq> Some True \<and> hasCallback
                    then s1\<lparr>addedOutboundReferences := addedOutboundReferences s1 @
                              detectOutboundReferences (address env) (inner_content env)\<rparr>
                    else s1))
      | OtherOp ty \<Rightarrow> Inl (InternalConsistency ''0x8e9''))"

text \<open>\<open>rollback\<close>: only a channel op can be rolled back; the context undoes it.\<close>

definition rollback :: "container_message \<Rightarrow> ChannelCollection \<Rightarrow> error + ChannelCollection" where
  "rollback msg s =
     (case msg of
        FluidDataStoreOp env \<Rightarrow>
          (let ctx = ctx_get (address env) (contexts s);
               (del, s1) = checkAndLogIfDeleted (address env) ''Changed'' s
           in if del then Inl (DataCorruptionError ''Context is deleted!'')
              else (case ctx of
                      None \<Rightarrow> Inl (InternalConsistency ''0x2e8'')
                    | Some c \<Rightarrow>
                        Inr (s1\<lparr>rolledBackOps := rolledBackOps s1 @
                                [(address env, inner_type env, inner_content env)]\<rparr>)))
      | _ \<Rightarrow> Inl (InternalConsistency ''0x8e8''))"

subsection \<open>Garbage collection\<close>

text \<open>
  A JavaScript \<open>Set\<close> built from an array, read back as an array: each element once, in
  the order of its first occurrence.
\<close>

definition unique_routes :: "string list \<Rightarrow> string list" where
  "unique_routes routes = rev (remdups (rev routes))"








text \<open>\<open>route.split("/")\<close>.\<close>

fun split_slash :: "string \<Rightarrow> string list" where
  "split_slash [] = [[]]"
| "split_slash (c # cs) =
     (if c = CHR ''/'' then [] # split_slash cs
      else (c # hd (split_slash cs)) # tl (split_slash cs))"

text \<open>\<open>pathParts[1]\<close>, which is \<open>undefined\<close> (\<open>None\<close>) when the route has no slash.\<close>

definition second_part :: "string list \<Rightarrow> string option" where
  "second_part pathParts = (if 1 < length pathParts then Some (pathParts ! 1) else None)"

text \<open>A string or \<open>undefined\<close> inside a template literal.\<close>

definition template_string :: "string option \<Rightarrow> string" where
  "template_string v = (case v of None \<Rightarrow> ''undefined'' | Some x \<Rightarrow> x)"

definition deleteChild :: "string \<Rightarrow> ChannelCollection \<Rightarrow> error + ChannelCollection" where
  "deleteChild dataStoreId s =
     (case ctx_get dataStoreId (contexts s) of
        None \<Rightarrow> Inl (InternalConsistency ''0x2d7'')
      | Some dataStoreContext \<Rightarrow>
          Inr ((contexts_delete dataStoreId
                 (s\<lparr>deletedContexts := deletedContexts s @ [context_delete dataStoreContext]\<rparr>))
               \<lparr>deletedSummarizerNodes := deletedSummarizerNodes s @ [dataStoreId]\<rparr>))"

text \<open>
  The body of the loop of \<open>deleteSweepReadyNodes\<close>, for one route. No context is
  stored under \<open>undefined\<close>, so a route without a second part finds none.
\<close>

definition logDeletedDataStoreNotFound ::
  "string option \<Rightarrow> ChannelCollection \<Rightarrow> ChannelCollection" where
  "logDeletedDataStoreNotFound dataStoreId s =
     (let alreadyDeleted = isDataStoreDeleted s (''/'' @ template_string dataStoreId)
      in s\<lparr>telemetry := telemetry s @
            [TelemetryEvent (if alreadyDeleted then Generic else Error)
               ''DeletedDataStoreNotFound'' dataStoreId]\<rparr>)"

definition sweepRoute :: "string \<Rightarrow> ChannelCollection \<Rightarrow> error + ChannelCollection" where
  "sweepRoute route s =
     (let pathParts = split_slash route;
          dataStoreId = second_part pathParts
      in if 2 < length pathParts then Inr s
         else (case dataStoreId of
                 None \<Rightarrow> Inr (logDeletedDataStoreNotFound dataStoreId s)
               | Some i \<Rightarrow>
                   (case ctx_get i (contexts s) of
                      None \<Rightarrow> Inr (logDeletedDataStoreNotFound dataStoreId s)
                    | Some dataStoreContext \<Rightarrow> deleteChild i s)))"

fun sweepRoutes :: "string list \<Rightarrow> ChannelCollection \<Rightarrow> error + ChannelCollection" where
  "sweepRoutes [] s = Inr s"
| "sweepRoutes (route # routes) s =
     (case sweepRoute route s of Inl e \<Rightarrow> Inl e | Inr s1 \<Rightarrow> sweepRoutes routes s1)"

definition deleteSweepReadyNodes ::
  "string list \<Rightarrow> ChannelCollection \<Rightarrow> error + (ChannelCollection \<times> string list)" where
  "deleteSweepReadyNodes sweepReadyDataStoreRoutes s =
     (case sweepRoutes sweepReadyDataStoreRoutes s of
        Inl e \<Rightarrow> Inl e
      | Inr s1 \<Rightarrow> Inr (s1, sweepReadyDataStoreRoutes))"

subsection \<open>The operations that touch the pending attach ops\<close>

text \<open>
  The operations of the collection after which the specification wants the pending
  attach ops to match the attaching contexts: creating a store, making it visible,
  processing an attach op, applying a stashed attach op, rollback, and deletion.
\<close>

datatype operation =
    CreateDataStoreContext DocumentUniqueId "string list" "string option"
  | CreateDetachedDataStore DocumentUniqueId "string list" "string option"
  | MakeDataStoreLocallyVisible string
  | ProcessAttachMessage AttachMessage bool
  | ApplyStashedAttachOp AttachMessage
  | Rollback container_message
  | DeleteSweepReadyNodes "string list"

fun perform :: "(int \<Rightarrow> string) \<Rightarrow> operation \<Rightarrow> ChannelCollection \<Rightarrow> error + ChannelCollection" where
  "perform enc (CreateDataStoreContext gen pkg grp) s = createDataStoreContext enc gen pkg grp s"
| "perform enc (CreateDetachedDataStore gen pkg grp) s = createDetachedDataStore enc gen pkg grp s"
| "perform enc (MakeDataStoreLocallyVisible i) s = makeDataStoreLocallyVisible i s"
| "perform enc (ProcessAttachMessage m local) s = processAttachMessage m local s"
| "perform enc (ApplyStashedAttachOp m) s = applyStashedAttachOp m s"
| "perform enc (Rollback msg) s = rollback msg s"
| "perform enc (DeleteSweepReadyNodes routes) s =
     (case deleteSweepReadyNodes routes s of Inl e \<Rightarrow> Inl e | Inr r \<Rightarrow> Inr (fst r))"

text \<open>
  The ids of the contexts in Attaching state, in a container that is not detached: the
  right-hand side of the specification's first invariant.
\<close>

definition attaching_ids :: "ChannelCollection \<Rightarrow> string set" where
  "attaching_ids s =
     (if parentAttachState s = Detached then {}
      else {i \<in> ctx_id ` set (contexts s).
              map_option attachState (ctx_get i (contexts s)) = Some Attaching})"

subsection \<open>A new collection\<close>

text \<open>
  The collection as the constructor leaves it when there is no base snapshot: no context,
  an empty alias map, no node deleted by the garbage collector, the configuration flag
  unset, and channels that have nothing to report.
\<close>

definition empty_channel :: channel where
  "empty_channel =
     \<lparr>chan_attachSummary = \<lparr>snap_gcNodes = None, snap_blobs = [], snap_groupId = None\<rparr>,
      chan_gcNodes = (\<lambda>fullGC. []), chan_isRoot = False\<rparr>"

definition new_collection :: "AttachState \<Rightarrow> ChannelCollection" where
  "new_collection parentState =
     \<lparr>contexts = [], notBoundContexts = {}, pendingAttach = Map.empty,
      attachOpFiredForDataStore = {}, dataStoresSinceLastGC = [], aliasMap = Map.empty,
      pendingAliasMap = Map.empty, shouldSendAttachLog = True,
      parentAttachState = parentState, isDataStoreDeleted = (\<lambda>nodePath. False),
      detectOutboundRoutesViaDDSKey = None, channels = (\<lambda>i. empty_channel),
      submittedMessages = [], gcOutboundReferences = [], addedOutboundReferences = [],
      telemetry = [], gcNodeUpdates = [], deliveredOps = [], rolledBackOps = [],
      resolverCalls = [], deletedContexts = [], deletedSummarizerNodes = []\<rparr>"

subsection \<open>Auxiliary definitions and concrete inputs\<close>

text \<open>Visiting a list of properties one after the other.\<close>

definition visitAll :: "(string \<times> json) list \<Rightarrow> find_state \<Rightarrow> find_state" where
  "visitAll ps st = fold (\<lambda>p. visitEntry (fst p) (snd p)) ps st"

text \<open>An injective encoding of integers, to instantiate \<open>encodeCompactIdToString\<close>.\<close>

definition unary :: "int \<Rightarrow> string" where
  "unary i =
     (if 0 \<le> i then replicate (nat i) (CHR ''A'')
      else CHR ''-'' # replicate (nat (- i)) (CHR ''A''))"

text \<open>
  The op of the spec's scenario S4: a handle to \<open>/2/dds1\<close> in an op of the DDS
  \<open>dds0\<close> of the store \<open>1\<close>; and contents with a handle and no address.
\<close>

definition s4_content :: json where
  "s4_content =
     JObj [(''handle'', JObj [(''type'', JStr ''__fluid_handle__''), (''url'', JStr ''/2/dds1'')]),
           (''address'', JStr ''dds0'')]"

definition s4_message :: sequenced_message where
  "s4_message =
     \<lparr>contents = FluidDataStoreOp
        \<lparr>address = ''1'', inner_type = ''op'', inner_content = s4_content\<rparr>,
      timestamp = 0\<rparr>"

definition handle_only :: json where
  "handle_only =
     JObj [(''value'', JObj [(''type'', JStr ''__fluid_handle__''), (''url'', JStr ''/2/dds1'')])]"

text \<open>A collection in an attached container that holds the remote store \<open>1\<close>.\<close>

definition one_store :: ChannelCollection where
  "one_store =
     (new_collection Attached)
       \<lparr>contexts :=
          [new_context RemoteFluidDataStoreContext ''1'' [''pkg''] ParentStorage None None]\<rparr>"


text \<open>Two attach messages: one for the store \<open>1\<close>, one for a store \<open>2\<close> with a snapshot.\<close>

definition attach1 :: AttachMessage where
  "attach1 = \<lparr>msg_id = ''1'', msg_type = Some ''pkg'', msg_snapshot = None\<rparr>"

definition attach2 :: AttachMessage where
  "attach2 =
     \<lparr>msg_id = ''2'', msg_type = Some ''pkg'',
      msg_snapshot = Some \<lparr>snap_gcNodes = Some [(''/'', [''/1''])],
                            snap_blobs = [(''b1'', ''data'')], snap_groupId = None\<rparr>\<rparr>"

text \<open>
  The scenario S2 of the specification: in an attached container the local store \<open>1\<close>
  has been created (and is not bound yet), and then made visible.
\<close>

definition local_store :: ChannelCollection where
  "local_store =
     (new_collection Attached)
       \<lparr>contexts :=
          [new_context LocalFluidDataStoreContext ''1'' [''pkg''] ParentStorage None None],
        notBoundContexts := {''1''}\<rparr>"

definition visible_store :: ChannelCollection where
  "visible_store =
     (new_collection Attached)
       \<lparr>contexts :=
          [(new_context LocalFluidDataStoreContext ''1'' [''pkg''] ParentStorage None None)
             \<lparr>attachState := Attaching\<rparr>],
        pendingAttach :=
          [''1'' \<mapsto> \<lparr>msg_id = ''1'', msg_type = Some ''pkg'',
                     msg_snapshot = Some (chan_attachSummary empty_channel)\<rparr>],
        attachOpFiredForDataStore := {''1''},
        submittedMessages :=
          [AttachOp \<lparr>msg_id = ''1'', msg_type = Some ''pkg'',
                      msg_snapshot = Some (chan_attachSummary empty_channel)\<rparr>]\<rparr>"



definition gone_store :: ChannelCollection where
  "gone_store = (new_collection Attached)\<lparr>isDataStoreDeleted := (\<lambda>nodePath. nodePath = ''/1'')\<rparr>"

section \<open>Lemmas\<close>

subsection \<open>The traversal visits the properties in order\<close>

lemma visitAll_simps [simp]:
  "visitAll [] st = st"
  "visitAll (p # ps) st = visitAll ps (visitEntry (fst p) (snd p) st)"
  "visitAll (ps @ qs) st = visitAll qs (visitAll ps st)"
  by (simp_all add: visitAll_def)

lemma traversal_visits_properties:
  "recursivelyFindHandles j st = visitAll (properties j) st"
  "forEntries es st = visitAll (propertiesOfEntries es) st"
  "forElements i vs st = visitAll (propertiesOfElements i vs) st"
  by (induction j st and es st and i vs st
      rule: recursivelyFindHandles_forEntries_forElements.induct) simp_all

lemma visitAll_outboundPaths:
  "outboundPaths (visitAll ps st) =
     outboundPaths st @ map handle_url (filter isSerializedHandle (map snd ps))"
  by (induction ps arbitrary: st) (simp_all add: visitEntry_def Let_def)

lemma visitAll_ddsAddress:
  "ddsAddress (visitAll ps st) =
     (case ddsAddress st of
        Some d \<Rightarrow> Some d
      | None \<Rightarrow> (case map snd (filter (\<lambda>p. fst p = ''address'') ps) of
                   [] \<Rightarrow> None | v # _ \<Rightarrow> Some v))"
  by (induction ps arbitrary: st)
    (auto simp add: visitEntry_def Let_def split: option.splits list.splits)

lemma detect_eq:
  "detectOutboundReferences a j =
     map (Pair (js_join ''/'' [Some (JStr []), Some (JStr a),
                  (case address_values j of [] \<Rightarrow> None | v # _ \<Rightarrow> Some v)]))
       (handle_urls j)"
  by (simp add: detectOutboundReferences_def Let_def traversal_visits_properties
      visitAll_outboundPaths visitAll_ddsAddress handle_urls_def address_values_def)

lemma js_join_string:
  "js_join ''/'' [Some (JStr []), Some (JStr a), Some (JStr d)] = ''/'' @ a @ ''/'' @ d"
  by (simp add: js_join_def join_element_def)

lemma js_join_undefined:
  "js_join ''/'' [Some (JStr []), Some (JStr a), None] = ''/'' @ a @ ''/''"
  by (simp add: js_join_def join_element_def)

subsection \<open>The unary encoding is injective\<close>



subsection \<open>Rounding to a double\<close>







subsection \<open>Lookups in the table of contexts\<close>

lemma ctx_get_id: "ctx_get i cs = Some c \<Longrightarrow> ctx_id c = i"
  by (auto simp add: ctx_get_def find_Some_iff)

lemma ctx_get_Nil [simp]: "ctx_get i [] = None"
  by (simp add: ctx_get_def)

lemma ctx_get_Cons: "ctx_get i (c # cs) = (if ctx_id c = i then Some c else ctx_get i cs)"
  by (simp add: ctx_get_def)

lemma ctx_get_modify:
  assumes "\<And>c. ctx_id c = i \<Longrightarrow> ctx_id (f c) = i"
  shows "ctx_get k (ctx_modify i f cs) = (if k = i then map_option f (ctx_get i cs) else ctx_get k cs)"
  using assms by (induction cs) (auto simp add: ctx_get_Cons)

lemma ctx_get_append:
  "ctx_get k (cs @ [c]) =
     (case ctx_get k cs of Some x \<Rightarrow> Some x | None \<Rightarrow> if ctx_id c = k then Some c else None)"
  by (induction cs) (auto simp add: ctx_get_Cons)

lemma ctx_get_filter:
  "ctx_get k (filter (\<lambda>c. ctx_id c \<noteq> i) cs) = (if k = i then None else ctx_get k cs)"
  by (induction cs) (auto simp add: ctx_get_Cons)

lemma ctx_get_unbound: "getUnbound i s = Some c \<Longrightarrow> ctx_get i (contexts s) = Some c \<and> i \<in> notBoundContexts s"
  by (simp add: getUnbound_def split: if_splits)

subsection \<open>The first part of processing an attach message\<close>

lemma recordAttachMessage_fields [simp]:
  "contexts (recordAttachMessage m s) = contexts s"
  "notBoundContexts (recordAttachMessage m s) = notBoundContexts s"
  "pendingAttach (recordAttachMessage m s) = pendingAttach s"
  "aliasMap (recordAttachMessage m s) = aliasMap s"
  "parentAttachState (recordAttachMessage m s) = parentAttachState s"
  by (simp_all add: recordAttachMessage_def Let_def)

lemma alreadyProcessed_record [simp]:
  "alreadyProcessed i (recordAttachMessage m s) = alreadyProcessed i s"
  by (simp add: alreadyProcessed_def)

subsection \<open>What each operation does to the attaching contexts and the pending attach ops\<close>

lemma ctx_get_in_set: "ctx_get i cs = Some c \<Longrightarrow> i \<in> ctx_id ` set cs"
  by (auto simp add: ctx_get_def find_Some_iff)

lemma attaching_ids_iff:
  "i \<in> attaching_ids s \<longleftrightarrow>
     parentAttachState s \<noteq> Detached \<and>
     map_option attachState (ctx_get i (contexts s)) = Some Attaching"
  by (auto simp add: attaching_ids_def dest: ctx_get_in_set)

lemma create_frame:
  assumes "createContext i pkg cls grp s = Inr s'"
  shows "attaching_ids s' = attaching_ids s \<and> pendingAttach s' = pendingAttach s"
proof -
  from assms have n: "ctx_get i (contexts s) = None"
    and s': "s' = s\<lparr>contexts := contexts s @ [new_context cls i pkg ParentStorage None grp],
                    notBoundContexts := insert i (notBoundContexts s)\<rparr>"
    by (auto simp add: createContext_def addUnbound_def new_context_def split: if_splits)
  have "k \<in> attaching_ids s' \<longleftrightarrow> k \<in> attaching_ids s" for k
    using n by (auto simp add: attaching_ids_iff s' ctx_get_append new_context_def
        split: option.splits)
  then show ?thesis by (auto simp add: s')
qed

lemma visible_frame:
  assumes "makeDataStoreLocallyVisible i s = Inr s'"
  shows "(parentAttachState s \<noteq> Detached \<longrightarrow>
            attaching_ids s' = insert i (attaching_ids s) \<and>
            dom (pendingAttach s') = insert i (dom (pendingAttach s))) \<and>
         (parentAttachState s = Detached \<longrightarrow>
            attaching_ids s' = attaching_ids s \<and> pendingAttach s' = pendingAttach s)"
proof (cases "parentAttachState s = Detached")
  case True
  with assms have "s' = s\<lparr>notBoundContexts := notBoundContexts s - {i}\<rparr>"
    by (auto simp add: makeDataStoreLocallyVisible_def bind_def split: option.splits if_splits)
  with True show ?thesis by (simp add: attaching_ids_def)
next
  case False
  from assms False obtain c c1 where
    g: "ctx_get i (contexts s) = Some c" and
    sa: "setAttachState Attaching c = Inr c1" and
    s': "s' = (submitAttachChannelOp c1 (s\<lparr>contexts := ctx_modify i (\<lambda>_. c1) (contexts s)\<rparr>))
               \<lparr>notBoundContexts := notBoundContexts s - {i}\<rparr>"
    by (auto simp add: makeDataStoreLocallyVisible_def bind_def getUnbound_def
        submitAttachChannelOp_def Let_def split: option.splits if_splits sum.splits)
  from g have cid: "ctx_id c = i" by (rule ctx_get_id)
  from sa have c1: "c1 = c\<lparr>attachState := Attaching\<rparr>"
    by (simp add: setAttachState_def split: if_splits)
  have "k \<in> attaching_ids s' \<longleftrightarrow> k \<in> insert i (attaching_ids s)" for k
    using False g by (auto simp add: attaching_ids_iff s' submitAttachChannelOp_def Let_def
        ctx_get_modify c1 cid)
  moreover have "dom (pendingAttach s') = insert i (dom (pendingAttach s))"
    by (simp add: s' submitAttachChannelOp_def Let_def c1 cid)
  ultimately show ?thesis using False by blast
qed

lemma attach_frame:
  assumes "processAttachMessage m local s = Inr s'"
  shows "attaching_ids s' = (if local then attaching_ids s - {msg_id m} else attaching_ids s) \<and>
         dom (pendingAttach s') =
           (if local then dom (pendingAttach s) - {msg_id m} else dom (pendingAttach s))"
proof (cases local)
  case True
  show ?thesis
  proof (cases "ctx_get (msg_id m) (contexts s)")
    case None
    with assms True have s': "s' = (recordAttachMessage m s)
        \<lparr>pendingAttach := (pendingAttach s)(msg_id m := None)\<rparr>"
      by (auto simp add: processAttachMessage_def Let_def split: if_splits)
    have "k \<in> attaching_ids s' \<longleftrightarrow> k \<in> attaching_ids s - {msg_id m}" for k
      using None by (auto simp add: attaching_ids_iff s')
    then show ?thesis using True by (auto simp add: s')
  next
    case (Some c)
    then have cid: "ctx_id c = msg_id m" by (rule ctx_get_id)
    from assms True Some have s': "s' = (recordAttachMessage m s)
        \<lparr>contexts := ctx_modify (msg_id m) (\<lambda>_. c\<lparr>attachState := Attached\<rparr>) (contexts s),
          pendingAttach := (pendingAttach s)(msg_id m := None)\<rparr>"
      by (auto simp add: processAttachMessage_def Let_def setAttachState_def split: if_splits)
    have "k \<in> attaching_ids s' \<longleftrightarrow> k \<in> attaching_ids s - {msg_id m}" for k
      using Some by (auto simp add: attaching_ids_iff s' ctx_get_modify cid)
    then show ?thesis using True by (auto simp add: s')
  qed
next
  case False
  define c where "c = new_context RemoteFluidDataStoreContext (msg_id m)
      (case msg_type m of None \<Rightarrow> [] | Some ty \<Rightarrow> [ty])
      (StorageServiceWithAttachBlobs ParentStorage
         (case msg_snapshot m of None \<Rightarrow> [] | Some sn \<Rightarrow> snap_blobs sn))
      (msg_snapshot m)
      (case msg_snapshot m of None \<Rightarrow> None | Some sn \<Rightarrow> snap_groupId sn)"
  have c: "ctx_id c = msg_id m" "attachState c = Attached"
    by (simp_all add: c_def new_context_def)
  from assms False have n: "ctx_get (msg_id m) (contexts s) = None"
    by (auto simp add: processAttachMessage_def Let_def alreadyProcessed_def split: if_splits)
  from assms False n have s': "s' = (recordAttachMessage m s)\<lparr>contexts := contexts s @ [c]\<rparr>"
    by (auto simp add: processAttachMessage_def Let_def addBoundOrRemoted_def c
        c_def [symmetric] split: if_splits)
  have "k \<in> attaching_ids s' \<longleftrightarrow> k \<in> attaching_ids s" for k
    using n c by (auto simp add: attaching_ids_iff s' ctx_get_append split: option.splits)
  then show ?thesis using False by (auto simp add: s')
qed

lemma stash_frame:
  assumes "applyStashedAttachOp m s = Inr s'"
  shows "attaching_ids s' = attaching_ids s \<and>
         dom (pendingAttach s') =
           (if parentAttachState s = Detached then dom (pendingAttach s)
            else insert (msg_id m) (dom (pendingAttach s)))"
proof -
  from assms obtain sn where sn: "msg_snapshot m = Some sn"
    by (cases "msg_snapshot m") (simp_all add: applyStashedAttachOp_def)
  define c where "c = new_context LocalFluidDataStoreContext (msg_id m) []
      (StorageServiceWithAttachBlobs ParentStorage (snap_blobs sn)) (Some sn) None"
  have c: "ctx_id c = msg_id m" "attachState c = Detached"
    by (simp_all add: c_def new_context_def)
  have unfolded: "applyStashedAttachOp m s =
      (case addBoundOrRemoted c s of
         Inl e \<Rightarrow> Inl e
       | Inr s1 \<Rightarrow>
           Inr (if parentAttachState s1 \<noteq> Detached
                then s1\<lparr>pendingAttach := (pendingAttach s1)(msg_id m \<mapsto> m)\<rparr>
                else s1))"
    by (simp add: applyStashedAttachOp_def sn Let_def c_def)
  have n: "ctx_get (msg_id m) (contexts s) = None"
  proof (rule ccontr)
    assume "ctx_get (msg_id m) (contexts s) \<noteq> None"
    then have "addBoundOrRemoted c s = Inl (InternalConsistency ''Creating store with existing ID'')"
      by (simp add: addBoundOrRemoted_def c)
    with assms unfolded show False by simp
  qed
  then have added: "addBoundOrRemoted c s = Inr (s\<lparr>contexts := contexts s @ [c]\<rparr>)"
    by (simp add: addBoundOrRemoted_def c)
  have look: "ctx_get k (contexts s @ [c]) = (if k = msg_id m then Some c else ctx_get k (contexts s))"
    for k
    using n by (simp add: ctx_get_append c split: option.splits)
  show ?thesis
  proof (cases "parentAttachState s = Detached")
    case True
    with assms unfolded added have s': "s' = s\<lparr>contexts := contexts s @ [c]\<rparr>"
      by simp
    have "k \<in> attaching_ids s' \<longleftrightarrow> k \<in> attaching_ids s" for k
      using n by (simp add: attaching_ids_iff s' look c)
    then have "attaching_ids s' = attaching_ids s" by blast
    with True show ?thesis by (simp add: s')
  next
    case False
    with assms unfolded added have s': "s' = s\<lparr>contexts := contexts s @ [c],
        pendingAttach := (pendingAttach s)(msg_id m \<mapsto> m)\<rparr>"
      by simp
    have "k \<in> attaching_ids s' \<longleftrightarrow> k \<in> attaching_ids s" for k
      using n by (simp add: attaching_ids_iff s' look c)
    then have "attaching_ids s' = attaching_ids s" by blast
    with False show ?thesis by (simp add: s')
  qed
qed

lemma rollback_frame:
  assumes "rollback msg s = Inr s'"
  shows "attaching_ids s' = attaching_ids s \<and> pendingAttach s' = pendingAttach s"
  using assms
  by (auto simp add: rollback_def checkAndLogIfDeleted_def Let_def attaching_ids_def
      split: container_message.splits option.splits if_splits)

lemma sweepRoute_frame:
  assumes "sweepRoute route s = Inr s'"
  shows "attaching_ids s' \<subseteq> attaching_ids s \<and> pendingAttach s' = pendingAttach s"
proof -
  have del: "deleteChild i s = Inr s' \<Longrightarrow> ?thesis" for i
    by (auto simp add: deleteChild_def contexts_delete_def attaching_ids_iff ctx_get_filter
        split: option.splits if_splits)
  have log: "attaching_ids (logDeletedDataStoreNotFound d s) = attaching_ids s \<and>
      pendingAttach (logDeletedDataStoreNotFound d s) = pendingAttach s" for d
    by (simp add: logDeletedDataStoreNotFound_def attaching_ids_def Let_def)
  from assms show ?thesis
    using del log
    by (auto simp add: sweepRoute_def Let_def split: if_splits option.splits)
qed

lemma sweepRoutes_frame:
  "sweepRoutes routes s = Inr s' \<Longrightarrow>
     attaching_ids s' \<subseteq> attaching_ids s \<and> pendingAttach s' = pendingAttach s"
proof (induction routes arbitrary: s)
  case Nil
  then show ?case by simp
next
  case (Cons r rs)
  then obtain s1 where 1: "sweepRoute r s = Inr s1" and 2: "sweepRoutes rs s1 = Inr s'"
    by (auto split: sum.splits)
  from sweepRoute_frame [OF 1] Cons.IH [OF 2] show ?case by auto
qed

lemma perform_keeps_pending_attach:
  assumes "perform enc op s = Inr s'"
  shows "(attaching_ids s \<subseteq> dom (pendingAttach s) \<longrightarrow>
            attaching_ids s' \<subseteq> dom (pendingAttach s')) \<and>
         ((\<forall>m. op \<noteq> ApplyStashedAttachOp m) \<and> (\<forall>routes. op \<noteq> DeleteSweepReadyNodes routes) \<and>
          dom (pendingAttach s) = attaching_ids s \<longrightarrow>
            dom (pendingAttach s') = attaching_ids s')"
proof (cases op)
  case (CreateDataStoreContext gen pkg grp)
  with assms have "createContext
      (createDataStoreId enc (parentAttachState s) (length (contexts s)) gen)
      pkg LocalFluidDataStoreContext grp s = Inr s'"
    by (simp add: createDataStoreContext_def)
  from create_frame [OF this] show ?thesis by auto
next
  case (CreateDetachedDataStore gen pkg grp)
  with assms have "createContext
      (createDataStoreId enc (parentAttachState s) (length (contexts s)) gen)
      pkg LocalDetachedFluidDataStoreContext grp s = Inr s'"
    by (simp add: createDetachedDataStore_def)
  from create_frame [OF this] show ?thesis by auto
next
  case (MakeDataStoreLocallyVisible i)
  with assms have "makeDataStoreLocallyVisible i s = Inr s'" by simp
  from visible_frame [OF this] MakeDataStoreLocallyVisible show ?thesis
    by (cases "parentAttachState s = Detached") auto
next
  case (ProcessAttachMessage m local)
  with assms have "processAttachMessage m local s = Inr s'" by simp
  from attach_frame [OF this] ProcessAttachMessage show ?thesis
    by (cases local) auto
next
  case (ApplyStashedAttachOp m)
  with assms have "applyStashedAttachOp m s = Inr s'" by simp
  from stash_frame [OF this] ApplyStashedAttachOp show ?thesis
    by (auto split: if_splits)
next
  case (Rollback msg)
  with assms have "rollback msg s = Inr s'" by simp
  from rollback_frame [OF this] Rollback show ?thesis by auto
next
  case (DeleteSweepReadyNodes routes)
  with assms have "sweepRoutes routes s = Inr s'"
    by (auto simp add: deleteSweepReadyNodes_def split: sum.splits)
  from sweepRoutes_frame [OF this] DeleteSweepReadyNodes show ?thesis by auto
qed

subsection \<open>Sweeping routes\<close>

lemma split_slash_not_Nil [simp]: "split_slash r \<noteq> []"
  by (induction r) auto

lemma sweepRoute_long: "2 < length (split_slash route) \<Longrightarrow> sweepRoute route s = Inr s"
  by (simp add: sweepRoute_def Let_def)

lemma sweepRoute_found:
  assumes "split_slash route = [p, i]" and "ctx_get i (contexts s) = Some c"
  shows "sweepRoute route s =
     Inr (s\<lparr>deletedContexts := deletedContexts s @ [c\<lparr>ctx_deleted := True\<rparr>],
            contexts := filter (\<lambda>c. ctx_id c \<noteq> i) (contexts s),
            notBoundContexts := notBoundContexts s - {i},
            deletedSummarizerNodes := deletedSummarizerNodes s @ [i]\<rparr>)"
  using assms
  by (simp add: sweepRoute_def Let_def second_part_def deleteChild_def contexts_delete_def
      context_delete_def)

lemma sweepRoute_missing:
  assumes "split_slash route = [p, i]" and "ctx_get i (contexts s) = None"
  shows "sweepRoute route s =
     Inr (s\<lparr>telemetry := telemetry s @
            [TelemetryEvent (if isDataStoreDeleted s (''/'' @ i) then Generic else Error)
               ''DeletedDataStoreNotFound'' (Some i)]\<rparr>)"
  using assms
  by (simp add: sweepRoute_def Let_def second_part_def logDeletedDataStoreNotFound_def
      template_string_def)

lemma two_parts:
  "(\<not> 2 < length ps \<and> second_part ps = Some i) \<longleftrightarrow> (\<exists>p. ps = [p, i])"
proof
  assume h: "\<not> 2 < length ps \<and> second_part ps = Some i"
  then have "length ps = 2" by (auto simp add: second_part_def split: if_splits)
  then obtain p q where "ps = [p, q]"
    by (cases ps; cases "tl ps") auto
  with h show "\<exists>p. ps = [p, i]" by (simp add: second_part_def)
next
  assume "\<exists>p. ps = [p, i]"
  then show "\<not> 2 < length ps \<and> second_part ps = Some i"
    by (auto simp add: second_part_def)
qed

lemma sweepRoute_contexts:
  "\<exists>s'. sweepRoute route s = Inr s' \<and>
     (\<forall>k. ctx_get k (contexts s') =
        (if (\<exists>p. split_slash route = [p, k]) then None else ctx_get k (contexts s)))"
proof (cases "2 < length (split_slash route)")
  case True
  then have "\<not> (\<exists>p. split_slash route = [p, k])" for k by auto
  with True show ?thesis by (simp add: sweepRoute_long)
next
  case False
  show ?thesis
  proof (cases "second_part (split_slash route)")
    case None
    with False have "\<not> (\<exists>p. split_slash route = [p, k])" for k
      using two_parts [of "split_slash route" k] by simp
    with False None show ?thesis
      by (simp add: sweepRoute_def Let_def logDeletedDataStoreNotFound_def)
  next
    case (Some i)
    with False obtain p where p: "split_slash route = [p, i]"
      using two_parts [of "split_slash route" i] by auto
    show ?thesis
    proof (cases "ctx_get i (contexts s)")
      case None
      with p show ?thesis by (auto simp add: sweepRoute_missing)
    next
      case (Some c)
      with p show ?thesis by (auto simp add: sweepRoute_found ctx_get_filter)
    qed
  qed
qed

lemma sweepRoutes_contexts:
  "\<exists>s'. sweepRoutes routes s = Inr s' \<and>
     (\<forall>k. ctx_get k (contexts s') =
        (if (\<exists>r \<in> set routes. \<exists>p. split_slash r = [p, k]) then None
         else ctx_get k (contexts s)))"
proof (induction routes arbitrary: s)
  case Nil
  then show ?case by simp
next
  case (Cons r rs)
  from sweepRoute_contexts [of r s] obtain s1 where
    1: "sweepRoute r s = Inr s1" and
    c1: "\<And>k. ctx_get k (contexts s1) =
        (if (\<exists>p. split_slash r = [p, k]) then None else ctx_get k (contexts s))"
    by blast
  from Cons.IH [of s1] obtain s' where
    2: "sweepRoutes rs s1 = Inr s'" and
    c2: "\<And>k. ctx_get k (contexts s') =
        (if (\<exists>r \<in> set rs. \<exists>p. split_slash r = [p, k]) then None
         else ctx_get k (contexts s1))"
    by blast
  have "sweepRoutes (r # rs) s = Inr s'" by (simp add: 1 2)
  moreover have "ctx_get k (contexts s') =
        (if (\<exists>x \<in> set (r # rs). \<exists>p. split_slash x = [p, k]) then None
         else ctx_get k (contexts s))" for k
    by (simp add: c1 c2)
  ultimately show ?case by blast
qed

subsection \<open>Building the GC data\<close>

lemma set_unique_routes [simp]: "set (unique_routes rs) = set rs"
  by (simp add: unique_routes_def)

lemma distinct_unique_routes [simp]: "distinct (unique_routes rs)"
  by (simp add: unique_routes_def)











subsection \<open>The concrete inputs\<close>

lemma s4_urls: "handle_urls s4_content = [''/2/dds1'']"
  by (simp add: s4_content_def handle_urls_def isSerializedHandle_def handle_url_def)

lemma s4_addresses: "address_values s4_content = [JStr ''dds0'']"
  by (simp add: s4_content_def address_values_def)

lemma one_store_get: "ctx_get ''1'' (contexts one_store) \<noteq> None"
  by (simp add: one_store_def ctx_get_def new_context_def new_collection_def)

lemma one_store_flag: "detectOutboundRoutesViaDDSKey one_store \<noteq> Some True"
  by (simp add: one_store_def new_collection_def)

lemma one_store_ctx:
  "ctx_get ''1'' (contexts one_store) =
     Some (new_context RemoteFluidDataStoreContext ''1'' [''pkg''] ParentStorage None None)"
  by (simp add: one_store_def ctx_get_def new_context_def new_collection_def)


lemma local_store_created:
  "createContext ''1'' [''pkg''] LocalFluidDataStoreContext None (new_collection Attached) =
     Inr local_store"
  by (simp add: createContext_def addUnbound_def new_collection_def local_store_def
      new_context_def)

lemma visible_store_made: "makeDataStoreLocallyVisible ''1'' local_store = Inr visible_store"
  by (simp add: makeDataStoreLocallyVisible_def getUnbound_def local_store_def
      new_collection_def ctx_get_def new_context_def setAttachState_def
      submitAttachChannelOp_def generateAttachMessage_def Let_def bind_def visible_store_def)

lemma visible_store_pending: "dom (pendingAttach visible_store) = {''1''}"
  by (simp add: visible_store_def new_collection_def)

lemma visible_store_attaching: "attaching_ids visible_store = {''1''}"
  by (auto simp add: attaching_ids_def visible_store_def new_collection_def new_context_def
      ctx_get_def)

lemma local_store_exact:
  "dom (pendingAttach local_store) = {}" "attaching_ids local_store = {}"
  by (auto simp add: attaching_ids_def local_store_def new_collection_def new_context_def
      ctx_get_def)

lemma sweep_visible_store:
  "perform enc (DeleteSweepReadyNodes [''/1'']) visible_store =
     Inr (visible_store
           \<lparr>contexts := [], 
            deletedContexts :=
              [(new_context LocalFluidDataStoreContext ''1'' [''pkg''] ParentStorage None None)
                 \<lparr>attachState := Attaching, ctx_deleted := True\<rparr>],
            deletedSummarizerNodes := [''1'']\<rparr>)"
  by (simp add: deleteSweepReadyNodes_def sweepRoute_def second_part_def Let_def
      deleteChild_def contexts_delete_def context_delete_def visible_store_def
      new_collection_def new_context_def ctx_get_def)

lemma stash_new_collection:
  "perform enc (ApplyStashedAttachOp attach2) (new_collection Attached) =
     Inr ((new_collection Attached)
           \<lparr>contexts :=
              [new_context LocalFluidDataStoreContext ''2'' []
                 (StorageServiceWithAttachBlobs ParentStorage [(''b1'', ''data'')])
                 (msg_snapshot attach2) None],
            pendingAttach := [''2'' \<mapsto> attach2]\<rparr>)"
  by (simp add: applyStashedAttachOp_def attach2_def addBoundOrRemoted_def new_collection_def
      new_context_def ctx_get_def Let_def)




section \<open>Theorems\<close>


text \<open>
  C9: for an alias with no entry in the pending-alias map, \<open>waitIfPendingAlias\<close> resolves
  to \<open>Success\<close>; when an entry exists it returns that entry's promise, so the result is
  whatever that promise settles to.
\<close>

theorem C9_waitIfPendingAlias:
  "(pendingAliases a = None \<longrightarrow> waitIfPendingAlias pendingAliases a = ResolvesTo Success) \<and>
   (pendingAliases a = Some p \<longrightarrow> waitIfPendingAlias pendingAliases a = Adopts p)"
  by (simp add: waitIfPendingAlias_def)

theorem C9_waitIfPendingAlias_witness:
  "waitIfPendingAlias Map.empty ''root'' = ResolvesTo Success \<and>
   waitIfPendingAlias [''root'' \<mapsto> 7] ''root'' = Adopts 7"
  using C9_waitIfPendingAlias [of Map.empty "''root''" 0]
    C9_waitIfPendingAlias [of "[''root'' \<mapsto> 7]" "''root''" 7]
  by simp





text \<open>
  C10: when the contents hold at least one serialized handle and no property named
  \<open>address\<close> anywhere, every reference is reported from the path \<open>/\<close> + data store id +
  \<open>/\<close>, with an empty last segment: the undefined DDS address is joined as the empty
  string.
\<close>

theorem C10_no_address:
  assumes "address_values j = []" and "handle_urls j \<noteq> []"
  shows "detectOutboundReferences a j = map (Pair (''/'' @ a @ ''/'')) (handle_urls j) \<and>
         detectOutboundReferences a j \<noteq> []"
  using assms by (simp add: detect_eq js_join_undefined)

theorem C10_no_address_witness:
  "detectOutboundReferences ''1'' handle_only = [(''/1/'', ''/2/dds1'')]"
proof -
  have a: "address_values handle_only = []"
    by (simp add: handle_only_def address_values_def)
  have h: "handle_urls handle_only = [''/2/dds1'']"
    by (simp add: handle_only_def handle_urls_def isSerializedHandle_def handle_url_def)
  from C10_no_address [of handle_only "''1''"] a h show ?thesis by simp
qed

text \<open>
  C5, as the code has it: the targets that \<open>detectOutboundReferences\<close> reports are the
  \<open>url\<close>s of the property values of the serialized-handle shape, at any depth and in
  traversal order, each from the path \<open>/\<close> + address + \<open>/\<close> + d, where the string d is
  the value of the first property named \<open>address\<close>. When the configuration flag is not
  true and the caller passed the callback, \<open>process\<close> reports exactly these references
  for a channel op whose context exists or is reported deleted.
\<close>

theorem C5_detectOutboundReferences_amended:
  "map snd (detectOutboundReferences a j) = handle_urls j \<and>
   (\<forall>d rest. address_values j = JStr d # rest \<longrightarrow>
      detectOutboundReferences a j = map (Pair (''/'' @ a @ ''/'' @ d)) (handle_urls j)) \<and>
   (contents message = FluidDataStoreOp env \<and>
    detectOutboundRoutesViaDDSKey s \<noteq> Some True \<and>
    (isDataStoreDeleted s (''/'' @ address env) \<or> ctx_get (address env) (contexts s) \<noteq> None)
    \<longrightarrow> (\<exists>s1. process message local md True s = Inr s1 \<and>
           addedOutboundReferences s1 =
             addedOutboundReferences s @
               detectOutboundReferences (address env) (inner_content env)))"
proof (intro conjI allI impI)
  show "map snd (detectOutboundReferences a j) = handle_urls j"
    by (simp add: detect_eq comp_def)
next
  fix d rest
  assume "address_values j = JStr d # rest"
  then show "detectOutboundReferences a j = map (Pair (''/'' @ a @ ''/'' @ d)) (handle_urls j)"
    by (simp add: detect_eq js_join_string)
next
  assume h: "contents message = FluidDataStoreOp env \<and>
    detectOutboundRoutesViaDDSKey s \<noteq> Some True \<and>
    (isDataStoreDeleted s (''/'' @ address env) \<or> ctx_get (address env) (contexts s) \<noteq> None)"
  then show "\<exists>s1. process message local md True s = Inr s1 \<and>
           addedOutboundReferences s1 =
             addedOutboundReferences s @
               detectOutboundReferences (address env) (inner_content env)"
    by (auto simp add: process_def processChannelOp_def checkAndLogIfDeleted_def Let_def
        split: option.splits)
qed

theorem C5_detectOutboundReferences_witness:
  "detectOutboundReferences ''1'' s4_content = [(''/1/dds0'', ''/2/dds1'')] \<and>
   (\<exists>s1. process s4_message False 0 True one_store = Inr s1 \<and>
      addedOutboundReferences s1 = [(''/1/dds0'', ''/2/dds1'')])"
proof -
  note t = C5_detectOutboundReferences_amended
    [of "''1''" s4_content s4_message
        "\<lparr>address = ''1'', inner_type = ''op'', inner_content = s4_content\<rparr>" one_store False 0]
  have c: "contents s4_message =
     FluidDataStoreOp \<lparr>address = ''1'', inner_type = ''op'', inner_content = s4_content\<rparr>"
    by (simp add: s4_message_def)
  have e: "addedOutboundReferences one_store = []"
    by (simp add: one_store_def new_collection_def)
  from t s4_addresses s4_urls
  have d: "detectOutboundReferences ''1'' s4_content = [(''/1/dds0'', ''/2/dds1'')]"
    by simp
  from t c one_store_flag one_store_get e d show ?thesis
    by simp
qed

text \<open>
  The specification's sentence does not hold of \<open>process\<close>: with the flag unset, the op of scenario S4
  reports nothing when the caller passed no callback, and an op for a store that has no
  context stops with a \<open>DataProcessingError\<close> before any detection.
\<close>

theorem C5_process_counterexample:
  "detectOutboundRoutesViaDDSKey one_store \<noteq> Some True \<and>
   detectOutboundReferences ''1'' s4_content = [(''/1/dds0'', ''/2/dds1'')] \<and>
   map_sum id addedOutboundReferences (process s4_message False 0 False one_store) = Inr [] \<and>
   process s4_message False 0 True (new_collection Attached) =
     Inl (DataProcessingError ''No context for op'')"
  by (simp add: process_def s4_message_def processChannelOp_def checkAndLogIfDeleted_def
      new_collection_def ctx_get_def one_store_def new_context_def s4_content_def
      detectOutboundReferences_def visitEntry_def isSerializedHandle_def handle_url_def
      js_join_def join_element_def)




text \<open>
  C2: for a locally created store (unbound, Detached) in a container that is not
  detached, making the store visible submits an attach op for it and puts its id in the
  pending attach ops; processing the echoed attach op as a local op then moves the
  context to Attached and removes the id from the pending attach ops. A local attach op
  whose id is not pending fails the assertion 0x15e.
\<close>

theorem C2_attach_round_trip:
  "(getUnbound i s = Some c \<and> attachState c = Detached \<and> parentAttachState s \<noteq> Detached \<longrightarrow>
     (\<exists>s1 m. makeDataStoreLocallyVisible i s = Inr s1 \<and>
        msg_id m = i \<and>
        submittedMessages s1 = submittedMessages s @ [AttachOp m] \<and>
        pendingAttach s1 i = Some m \<and>
        map_option attachState (ctx_get i (contexts s1)) = Some Attaching \<and>
        (\<exists>s2. process \<lparr>contents = AttachOp m, timestamp = ts\<rparr> True md cb s1 = Inr s2 \<and>
           map_option attachState (ctx_get i (contexts s2)) = Some Attached \<and>
           pendingAttach s2 i = None))) \<and>
   (pendingAttach s (msg_id a) = None \<longrightarrow>
      processAttachMessage a True s = Inl (InternalConsistency ''0x15e''))"
proof (intro conjI impI)
  assume "pendingAttach s (msg_id a) = None"
  then show "processAttachMessage a True s = Inl (InternalConsistency ''0x15e'')"
    by (simp add: processAttachMessage_def Let_def)
next
  assume h: "getUnbound i s = Some c \<and> attachState c = Detached \<and> parentAttachState s \<noteq> Detached"
  then have g: "ctx_get i (contexts s) = Some c" and nb: "i \<in> notBoundContexts s"
    by (auto dest: ctx_get_unbound)
  from g have cid: "ctx_id c = i" by (rule ctx_get_id)
  define c1 where "c1 = c\<lparr>attachState := Attaching\<rparr>"
  define m where "m = generateAttachMessage s c"
  define s1 where "s1 = s\<lparr>contexts := ctx_modify i (\<lambda>_. c1) (contexts s),
      pendingAttach := (pendingAttach s)(i \<mapsto> m),
      submittedMessages := submittedMessages s @ [AttachOp m],
      attachOpFiredForDataStore := insert i (attachOpFiredForDataStore s),
      notBoundContexts := notBoundContexts s - {i}\<rparr>"
  have sa: "setAttachState Attaching c = Inr c1"
    using h by (simp add: setAttachState_def c1_def)
  have gm: "generateAttachMessage (s\<lparr>contexts := ctx_modify i (\<lambda>_. c1) (contexts s)\<rparr>) c1 = m"
    by (simp add: generateAttachMessage_def m_def c1_def)
  have mid: "msg_id m = i" by (simp add: m_def generateAttachMessage_def cid)
  have c1id: "ctx_id c1 = i" by (simp add: c1_def cid)
  have r1: "makeDataStoreLocallyVisible i s = Inr s1"
    using h nb by (simp add: makeDataStoreLocallyVisible_def sa submitAttachChannelOp_def gm
        Let_def bind_def s1_def c1id)
  have g1: "ctx_get i (contexts s1) = Some c1"
    by (simp add: s1_def ctx_get_modify c1id g)
  define s2 where "s2 = (recordAttachMessage m s1)\<lparr>contexts :=
      ctx_modify i (\<lambda>_. c1\<lparr>attachState := Attached\<rparr>) (contexts s1),
      pendingAttach := (pendingAttach s1)(i := None)\<rparr>"
  have r2: "process \<lparr>contents = AttachOp m, timestamp = ts\<rparr> True md cb s1 = Inr s2"
    by (simp add: process_def processAttachMessage_def Let_def mid g1 setAttachState_def
        c1_def s2_def, simp add: s1_def)
  have g2: "ctx_get i (contexts s2) = Some (c1\<lparr>attachState := Attached\<rparr>)"
    by (simp add: s2_def ctx_get_modify c1id g1)
  have "submittedMessages s1 = submittedMessages s @ [AttachOp m]"
    "pendingAttach s1 i = Some m" "pendingAttach s2 i = None"
    by (simp_all add: s1_def s2_def)
  with r1 r2 g1 g2 mid show "\<exists>s1 m. makeDataStoreLocallyVisible i s = Inr s1 \<and>
        msg_id m = i \<and>
        submittedMessages s1 = submittedMessages s @ [AttachOp m] \<and>
        pendingAttach s1 i = Some m \<and>
        map_option attachState (ctx_get i (contexts s1)) = Some Attaching \<and>
        (\<exists>s2. process \<lparr>contents = AttachOp m, timestamp = ts\<rparr> True md cb s1 = Inr s2 \<and>
           map_option attachState (ctx_get i (contexts s2)) = Some Attached \<and>
           pendingAttach s2 i = None)"
    by (intro exI [of _ s1] exI [of _ m] exI [of _ s2]) (simp add: c1_def)
qed

theorem C2_attach_round_trip_witness:
  "(\<exists>s1 m s2. makeDataStoreLocallyVisible ''1'' local_store = Inr s1 \<and>
      msg_id m = ''1'' \<and>
      submittedMessages s1 = [AttachOp m] \<and>
      pendingAttach s1 ''1'' = Some m \<and>
      map_option attachState (ctx_get ''1'' (contexts s1)) = Some Attaching \<and>
      process \<lparr>contents = AttachOp m, timestamp = 7\<rparr> True 0 False s1 = Inr s2 \<and>
      map_option attachState (ctx_get ''1'' (contexts s2)) = Some Attached \<and>
      pendingAttach s2 ''1'' = None) \<and>
   processAttachMessage attach2 True local_store = Inl (InternalConsistency ''0x15e'')"
proof -
  have u: "getUnbound ''1'' local_store =
      Some (new_context LocalFluidDataStoreContext ''1'' [''pkg''] ParentStorage None None)"
    by (simp add: getUnbound_def local_store_def new_collection_def ctx_get_def new_context_def)
  have d: "attachState (new_context LocalFluidDataStoreContext ''1'' [''pkg''] ParentStorage None None)
      = Detached"
    by (simp add: new_context_def)
  have p: "parentAttachState local_store \<noteq> Detached"
    "pendingAttach local_store (msg_id attach2) = None"
    "submittedMessages local_store = []"
    by (simp_all add: local_store_def new_collection_def)
  from C2_attach_round_trip [of "''1''" local_store
      "new_context LocalFluidDataStoreContext ''1'' [''pkg''] ParentStorage None None"
      7 0 False attach2] u d p
  show ?thesis by auto
qed


text \<open>
  C4: a remote attach op for an id that is already an alias or the id of a context throws
  the data corruption error "Duplicate DataStore created with existing id". For an
  unknown id a remote context is added to the table, bound; its storage wraps the
  parent's storage and serves the blobs inlined in the snapshot before it asks the
  parent.
\<close>

theorem C4_remote_attach:
  "(alreadyProcessed (msg_id m) s \<longrightarrow>
      processAttachMessage m False s =
        Inl (DataCorruptionError ''Duplicate DataStore created with existing id'')) \<and>
   (\<not> alreadyProcessed (msg_id m) s \<longrightarrow>
      (\<exists>s1 c. processAttachMessage m False s = Inr s1 \<and>
         ctx_get (msg_id m) (contexts s1) = Some c \<and>
         ctx_class c = RemoteFluidDataStoreContext \<and>
         ctx_storage c =
           StorageServiceWithAttachBlobs ParentStorage
             (case msg_snapshot m of None \<Rightarrow> [] | Some sn \<Rightarrow> snap_blobs sn) \<and>
         (\<forall>parent b. readBlob parent (ctx_storage c) b =
            (case map_of (case msg_snapshot m of None \<Rightarrow> [] | Some sn \<Rightarrow> snap_blobs sn) b of
               Some blob \<Rightarrow> Some blob
             | None \<Rightarrow> parent b)) \<and>
         notBoundContexts s1 = notBoundContexts s \<and>
         (msg_id m \<notin> notBoundContexts s \<longrightarrow> getUnbound (msg_id m) s1 = None)))"
proof (intro conjI impI)
  assume "alreadyProcessed (msg_id m) s"
  then show "processAttachMessage m False s =
        Inl (DataCorruptionError ''Duplicate DataStore created with existing id'')"
    by (simp add: processAttachMessage_def Let_def)
next
  assume fresh: "\<not> alreadyProcessed (msg_id m) s"
  define blobs where "blobs = (case msg_snapshot m of None \<Rightarrow> [] | Some sn \<Rightarrow> snap_blobs sn)"
  define c where "c = new_context RemoteFluidDataStoreContext (msg_id m)
      (case msg_type m of None \<Rightarrow> [] | Some ty \<Rightarrow> [ty])
      (StorageServiceWithAttachBlobs ParentStorage blobs) (msg_snapshot m)
      (case msg_snapshot m of None \<Rightarrow> None | Some sn \<Rightarrow> snap_groupId sn)"
  from fresh have none: "ctx_get (msg_id m) (contexts s) = None"
    by (simp add: alreadyProcessed_def)
  have cid: "ctx_id c = msg_id m" by (simp add: c_def new_context_def)
  from fresh none obtain s1 where
    r: "processAttachMessage m False s = Inr s1" and
    cs: "contexts s1 = contexts s @ [c]" and
    nb: "notBoundContexts s1 = notBoundContexts s"
    by (simp add: processAttachMessage_def Let_def addBoundOrRemoted_def
        c_def [symmetric] blobs_def [symmetric] cid)
  have g: "ctx_get (msg_id m) (contexts s1) = Some c"
    by (simp add: cs ctx_get_append none cid)
  have "ctx_class c = RemoteFluidDataStoreContext"
    and "ctx_storage c = StorageServiceWithAttachBlobs ParentStorage blobs"
    by (simp_all add: c_def new_context_def)
  moreover have "\<forall>parent b. readBlob parent (ctx_storage c) b =
            (case map_of blobs b of Some blob \<Rightarrow> Some blob | None \<Rightarrow> parent b)"
    by (simp add: c_def new_context_def split: option.splits)
  moreover have "msg_id m \<notin> notBoundContexts s \<longrightarrow> getUnbound (msg_id m) s1 = None"
    by (simp add: getUnbound_def nb)
  ultimately show "\<exists>s1 c. processAttachMessage m False s = Inr s1 \<and>
         ctx_get (msg_id m) (contexts s1) = Some c \<and>
         ctx_class c = RemoteFluidDataStoreContext \<and>
         ctx_storage c =
           StorageServiceWithAttachBlobs ParentStorage
             (case msg_snapshot m of None \<Rightarrow> [] | Some sn \<Rightarrow> snap_blobs sn) \<and>
         (\<forall>parent b. readBlob parent (ctx_storage c) b =
            (case map_of (case msg_snapshot m of None \<Rightarrow> [] | Some sn \<Rightarrow> snap_blobs sn) b of
               Some blob \<Rightarrow> Some blob
             | None \<Rightarrow> parent b)) \<and>
         notBoundContexts s1 = notBoundContexts s \<and>
         (msg_id m \<notin> notBoundContexts s \<longrightarrow> getUnbound (msg_id m) s1 = None)"
    using r g nb unfolding blobs_def by blast
qed

theorem C4_remote_attach_witness:
  "processAttachMessage attach1 False one_store =
     Inl (DataCorruptionError ''Duplicate DataStore created with existing id'') \<and>
   (\<exists>s1 c. processAttachMessage attach2 False one_store = Inr s1 \<and>
      ctx_get ''2'' (contexts s1) = Some c \<and>
      ctx_class c = RemoteFluidDataStoreContext \<and>
      ctx_storage c = StorageServiceWithAttachBlobs ParentStorage [(''b1'', ''data'')] \<and>
      readBlob Map.empty (ctx_storage c) ''b1'' = Some ''data'' \<and>
      readBlob [''b0'' \<mapsto> ''old''] (ctx_storage c) ''b0'' = Some ''old'' \<and>
      getUnbound ''2'' s1 = None)"
proof -
  have a1: "alreadyProcessed (msg_id attach1) one_store"
    by (simp add: alreadyProcessed_def attach1_def one_store_ctx)
  have a2: "\<not> alreadyProcessed (msg_id attach2) one_store"
    by (simp add: alreadyProcessed_def attach2_def one_store_def new_collection_def
        new_context_def ctx_get_def)
  have nb: "msg_id attach2 \<notin> notBoundContexts one_store"
    by (simp add: one_store_def new_collection_def)
  have m: "msg_id attach2 = ''2''"
    "(case msg_snapshot attach2 of None \<Rightarrow> [] | Some sn \<Rightarrow> snap_blobs sn) = [(''b1'', ''data'')]"
    by (simp_all add: attach2_def)
  from C4_remote_attach [of attach1 one_store] a1
  have p1: "processAttachMessage attach1 False one_store =
     Inl (DataCorruptionError ''Duplicate DataStore created with existing id'')"
    by simp
  from C4_remote_attach [of attach2 one_store] a2 nb
  obtain s1 c where r: "processAttachMessage attach2 False one_store = Inr s1"
    "ctx_get ''2'' (contexts s1) = Some c"
    "ctx_class c = RemoteFluidDataStoreContext"
    "ctx_storage c = StorageServiceWithAttachBlobs ParentStorage [(''b1'', ''data'')]"
    "getUnbound ''2'' s1 = None"
    unfolding m by blast
  have "readBlob Map.empty (ctx_storage c) ''b1'' = Some ''data''"
    "readBlob [''b0'' \<mapsto> ''old''] (ctx_storage c) ''b0'' = Some ''old''"
    by (simp_all add: r)
  with p1 r show ?thesis by blast
qed

text \<open>
  C3, as the code has it. In a new collection the keys of the pending attach ops are the
  ids of the contexts in Attaching state (in a container that is not detached). Every
  one of the operations keeps one half of this: if every such context has a pending
  attach op before, then so it is after. Creating a store, making it visible, processing
  an attach op and rollback keep the equality of the two sets as well.
\<close>

theorem C3_pending_attach_amended:
  assumes "perform enc op s = Inr s'"
  shows "dom (pendingAttach (new_collection a)) = attaching_ids (new_collection a) \<and>
         (attaching_ids s \<subseteq> dom (pendingAttach s) \<longrightarrow>
            attaching_ids s' \<subseteq> dom (pendingAttach s')) \<and>
         ((\<forall>m. op \<noteq> ApplyStashedAttachOp m) \<and> (\<forall>routes. op \<noteq> DeleteSweepReadyNodes routes) \<and>
          dom (pendingAttach s) = attaching_ids s \<longrightarrow>
            dom (pendingAttach s') = attaching_ids s')"
proof -
  have "dom (pendingAttach (new_collection a)) = attaching_ids (new_collection a)"
    by (simp add: attaching_ids_def new_collection_def)
  moreover note perform_keeps_pending_attach [OF assms]
  ultimately show ?thesis
    by (rule conjI)
qed

theorem C3_pending_attach_witness:
  "perform unary (MakeDataStoreLocallyVisible ''1'') local_store = Inr visible_store \<and>
   dom (pendingAttach local_store) = attaching_ids local_store \<and>
   dom (pendingAttach visible_store) = attaching_ids visible_store \<and>
   attaching_ids visible_store = {''1''} \<and>
   (\<exists>s'. perform unary (DeleteSweepReadyNodes [''/1'']) visible_store = Inr s' \<and>
      attaching_ids s' \<subseteq> dom (pendingAttach s'))"
proof -
  have p: "perform unary (MakeDataStoreLocallyVisible ''1'') local_store = Inr visible_store"
    by (simp add: visible_store_made)
  have e: "dom (pendingAttach local_store) = attaching_ids local_store"
    by (simp add: local_store_exact)
  have n: "\<forall>m. MakeDataStoreLocallyVisible ''1'' \<noteq> ApplyStashedAttachOp m"
    "\<forall>routes. MakeDataStoreLocallyVisible ''1'' \<noteq> DeleteSweepReadyNodes routes"
    by simp_all
  from C3_pending_attach_amended [OF p] e n
  have v: "dom (pendingAttach visible_store) = attaching_ids visible_store"
    by blast
  from C3_pending_attach_amended [OF sweep_visible_store [of unary]] v
  have "attaching_ids (visible_store
           \<lparr>contexts := [], 
            deletedContexts :=
              [(new_context LocalFluidDataStoreContext ''1'' [''pkg''] ParentStorage None None)
                 \<lparr>attachState := Attaching, ctx_deleted := True\<rparr>],
            deletedSummarizerNodes := [''1'']\<rparr>)
     \<subseteq> dom (pendingAttach (visible_store
           \<lparr>contexts := [], 
            deletedContexts :=
              [(new_context LocalFluidDataStoreContext ''1'' [''pkg''] ParentStorage None None)
                 \<lparr>attachState := Attaching, ctx_deleted := True\<rparr>],
            deletedSummarizerNodes := [''1'']\<rparr>))"
    by blast
  with p e v visible_store_attaching sweep_visible_store [of unary] show ?thesis
    by blast
qed

text \<open>
  The specification's invariant does not hold after a deletion and after a stashed
  attach op. The store
  \<open>1\<close>, created and made visible in an attached container, is Attaching and pending;
  \<open>deleteSweepReadyNodes\<close> removes its context and leaves its pending attach op. And
  \<open>applyStashedAttachOp\<close> in an attached container records a pending attach op for a
  context that it does not put in Attaching state.
\<close>

theorem C3_pending_attach_counterexample:
  "createContext ''1'' [''pkg''] LocalFluidDataStoreContext None (new_collection Attached) =
     Inr local_store \<and>
   makeDataStoreLocallyVisible ''1'' local_store = Inr visible_store \<and>
   dom (pendingAttach visible_store) = attaching_ids visible_store \<and>
   (\<exists>s'. perform unary (DeleteSweepReadyNodes [''/1'']) visible_store = Inr s' \<and>
      dom (pendingAttach s') = {''1''} \<and> attaching_ids s' = {}) \<and>
   dom (pendingAttach (new_collection Attached)) = attaching_ids (new_collection Attached) \<and>
   (\<exists>s'. perform unary (ApplyStashedAttachOp attach2) (new_collection Attached) = Inr s' \<and>
      dom (pendingAttach s') = {''2''} \<and> attaching_ids s' = {})"
proof -
  have 1: "dom (pendingAttach visible_store) = attaching_ids visible_store"
    by (simp add: visible_store_pending visible_store_attaching)
  define swept where "swept = visible_store
           \<lparr>contexts := [], 
            deletedContexts :=
              [(new_context LocalFluidDataStoreContext ''1'' [''pkg''] ParentStorage None None)
                 \<lparr>attachState := Attaching, ctx_deleted := True\<rparr>],
            deletedSummarizerNodes := [''1'']\<rparr>"
  have "perform unary (DeleteSweepReadyNodes [''/1'']) visible_store = Inr swept"
    unfolding swept_def by (rule sweep_visible_store)
  moreover have "dom (pendingAttach swept) = {''1''}"
    by (simp add: swept_def visible_store_pending)
  moreover have "attaching_ids swept = {}"
    by (simp add: swept_def attaching_ids_def)
  ultimately have 2: "\<exists>s'. perform unary (DeleteSweepReadyNodes [''/1'']) visible_store = Inr s' \<and>
      dom (pendingAttach s') = {''1''} \<and> attaching_ids s' = {}"
    by blast
  have 3: "dom (pendingAttach (new_collection Attached)) = attaching_ids (new_collection Attached)"
    by (simp add: attaching_ids_def new_collection_def)
  define stashed where "stashed = (new_collection Attached)
           \<lparr>contexts :=
              [new_context LocalFluidDataStoreContext ''2'' []
                 (StorageServiceWithAttachBlobs ParentStorage [(''b1'', ''data'')])
                 (msg_snapshot attach2) None],
            pendingAttach := [''2'' \<mapsto> attach2]\<rparr>"
  have "perform unary (ApplyStashedAttachOp attach2) (new_collection Attached) = Inr stashed"
    unfolding stashed_def by (rule stash_new_collection)
  moreover have "dom (pendingAttach stashed) = {''2''}"
    by (simp add: stashed_def)
  moreover have "attaching_ids stashed = {}"
    by (auto simp add: stashed_def attaching_ids_def new_context_def ctx_get_def)
  ultimately have 4: "\<exists>s'. perform unary (ApplyStashedAttachOp attach2) (new_collection Attached) = Inr s' \<and>
      dom (pendingAttach s') = {''2''} \<and> attaching_ids s' = {}"
    by blast
  from local_store_created visible_store_made 1 2 3 4 show ?thesis by blast
qed





text \<open>
  C7: \<open>deleteSweepReadyNodes\<close> never throws and returns its input. Afterwards no
  context is left for an id that a route of two parts names, and every other lookup
  is unchanged. For one route: more than two parts change nothing; a route \<open>/id\<close> with a
  context deletes the context, removes it from the table and deletes its summarizer node;
  a route \<open>/id\<close> without a context logs the event DeletedDataStoreNotFound, at severity
  generic when the garbage collector reports the store deleted and error otherwise.
\<close>

theorem C7_deleteSweepReadyNodes:
  "(\<exists>s'. deleteSweepReadyNodes routes s = Inr (s', routes) \<and>
      (\<forall>k. ctx_get k (contexts s') =
         (if (\<exists>r \<in> set routes. \<exists>p. split_slash r = [p, k]) then None
          else ctx_get k (contexts s)))) \<and>
   (2 < length (split_slash route) \<longrightarrow> sweepRoute route s = Inr s) \<and>
   (split_slash route = [p, i] \<and> ctx_get i (contexts s) = Some c \<longrightarrow>
      sweepRoute route s =
        Inr (s\<lparr>deletedContexts := deletedContexts s @ [c\<lparr>ctx_deleted := True\<rparr>],
               contexts := filter (\<lambda>c. ctx_id c \<noteq> i) (contexts s),
               notBoundContexts := notBoundContexts s - {i},
               deletedSummarizerNodes := deletedSummarizerNodes s @ [i]\<rparr>)) \<and>
   (split_slash route = [p, i] \<and> ctx_get i (contexts s) = None \<longrightarrow>
      sweepRoute route s =
        Inr (s\<lparr>telemetry := telemetry s @
               [TelemetryEvent (if isDataStoreDeleted s (''/'' @ i) then Generic else Error)
                  ''DeletedDataStoreNotFound'' (Some i)]\<rparr>))"
proof -
  from sweepRoutes_contexts [of routes s]
  have "\<exists>s'. deleteSweepReadyNodes routes s = Inr (s', routes) \<and>
      (\<forall>k. ctx_get k (contexts s') =
         (if (\<exists>r \<in> set routes. \<exists>p. split_slash r = [p, k]) then None
          else ctx_get k (contexts s)))"
    by (auto simp add: deleteSweepReadyNodes_def)
  then show ?thesis
    using sweepRoute_long [of route s] sweepRoute_found [of route p i s c]
      sweepRoute_missing [of route p i s]
    by blast
qed

theorem C7_deleteSweepReadyNodes_witness:
  "(\<exists>s'. deleteSweepReadyNodes [''/1'', ''/1/dds/x'', ''/9''] one_store =
            Inr (s', [''/1'', ''/1/dds/x'', ''/9'']) \<and>
      ctx_get ''1'' (contexts s') = None) \<and>
   sweepRoute ''/1/dds/x'' one_store = Inr one_store \<and>
   sweepRoute ''/1'' one_store =
     Inr (one_store
           \<lparr>deletedContexts :=
              [(new_context RemoteFluidDataStoreContext ''1'' [''pkg''] ParentStorage None None)
                 \<lparr>ctx_deleted := True\<rparr>],
            contexts := [],
            notBoundContexts := {},
            deletedSummarizerNodes := [''1'']\<rparr>) \<and>
   sweepRoute ''/9'' one_store =
     Inr (one_store\<lparr>telemetry :=
           [TelemetryEvent Error ''DeletedDataStoreNotFound'' (Some ''9'')]\<rparr>) \<and>
   sweepRoute ''/1'' gone_store =
     Inr (gone_store\<lparr>telemetry :=
           [TelemetryEvent Generic ''DeletedDataStoreNotFound'' (Some ''1'')]\<rparr>)"
proof -
  let ?c = "new_context RemoteFluidDataStoreContext ''1'' [''pkg''] ParentStorage None None"
  have sp: "split_slash ''/1'' = ['''', ''1'']" "split_slash ''/9'' = ['''', ''9'']"
    "2 < length (split_slash ''/1/dds/x'')"
    by simp_all
  have g9: "ctx_get ''9'' (contexts one_store) = None"
    by (simp add: one_store_def new_collection_def new_context_def ctx_get_def)
  have gg: "ctx_get ''1'' (contexts gone_store) = None"
    by (simp add: gone_store_def new_collection_def)
  have e: "deletedContexts one_store = []" "deletedSummarizerNodes one_store = []"
    "telemetry one_store = []" "telemetry gone_store = []"
    "notBoundContexts one_store = {}"
    "filter (\<lambda>c. ctx_id c \<noteq> ''1'') (contexts one_store) = []"
    "\<not> isDataStoreDeleted one_store (''/'' @ ''9'')"
    "isDataStoreDeleted gone_store (''/'' @ ''1'')"
    by (simp_all add: one_store_def gone_store_def new_collection_def new_context_def)
  note t1 = C7_deleteSweepReadyNodes
    [of "[''/1'', ''/1/dds/x'', ''/9'']" one_store "''/1/dds/x''" "''''" "''1''" ?c]
  note t2 = C7_deleteSweepReadyNodes [of "[]" one_store "''/1''" "''''" "''1''" ?c]
  note t3 = C7_deleteSweepReadyNodes [of "[]" one_store "''/9''" "''''" "''9''" ?c]
  note t4 = C7_deleteSweepReadyNodes [of "[]" gone_store "''/1''" "''''" "''1''" ?c]
  from t1 [THEN conjunct1] obtain s' where
    d: "deleteSweepReadyNodes [''/1'', ''/1/dds/x'', ''/9''] one_store =
            Inr (s', [''/1'', ''/1/dds/x'', ''/9''])" and
    k: "\<forall>k. ctx_get k (contexts s') =
         (if (\<exists>r \<in> set [''/1'', ''/1/dds/x'', ''/9'']. \<exists>p. split_slash r = [p, k]) then None
          else ctx_get k (contexts one_store))"
    by (elim exE conjE)
  have "ctx_get ''1'' (contexts s') = None"
    by (simp add: k)
  with d have p1: "\<exists>s'. deleteSweepReadyNodes [''/1'', ''/1/dds/x'', ''/9''] one_store =
            Inr (s', [''/1'', ''/1/dds/x'', ''/9'']) \<and>
      ctx_get ''1'' (contexts s') = None"
    by blast
  from sp have p2: "sweepRoute ''/1/dds/x'' one_store = Inr one_store"
    by (intro t1 [THEN conjunct2, THEN conjunct1, THEN mp])
  from t2 [THEN conjunct2, THEN conjunct2, THEN conjunct1] sp one_store_ctx e have p3: "sweepRoute ''/1'' one_store =
     Inr (one_store
           \<lparr>deletedContexts := [?c\<lparr>ctx_deleted := True\<rparr>],
            contexts := [],
            notBoundContexts := {},
            deletedSummarizerNodes := [''1'']\<rparr>)"
    by simp
  from t3 [THEN conjunct2, THEN conjunct2, THEN conjunct2] sp g9 e have p4: "sweepRoute ''/9'' one_store =
     Inr (one_store\<lparr>telemetry :=
           [TelemetryEvent Error ''DeletedDataStoreNotFound'' (Some ''9'')]\<rparr>)"
    by simp
  from t4 [THEN conjunct2, THEN conjunct2, THEN conjunct2] sp gg e have p5: "sweepRoute ''/1'' gone_store =
     Inr (gone_store\<lparr>telemetry :=
           [TelemetryEvent Generic ''DeletedDataStoreNotFound'' (Some ''1'')]\<rparr>)"
    by simp
  from p1 p2 p3 p4 p5 show ?thesis by (intro conjI)
qed


end
